theory Spec2Isabelle
  imports Complex_Main
begin

section \<open>Values and policy data (client/Policy.js)\<close>

text \<open>
  The policy object received from the server carries \<open>states\<close> (an array of
  snapshots, each an array of status strings), \<open>transitions\<close> (state index to
  action key to a list of \<open>[nextStateIndex, probability]\<close> pairs) and
  \<open>policy\<close> (state index to recommended action key). A status string is
  \<open>"D"\<close> (damaged), \<open>"U"\<close> (unknown) or anything else (energized).
  JavaScript numbers that hold probabilities are idealised as reals; indices are
  integers, since the code computes \<open>a[0]-1\<close> and may index with \<open>-1\<close>.
  A property that is absent from an object or an array reads as \<open>undefined\<close>,
  which is \<open>None\<close> here; reading a property of \<open>undefined\<close> throws a
  \<open>TypeError\<close>.
\<close>

datatype error = Error string | TypeError

type_synonym status = string
type_synonym snapshot = "status list"
type_synonym outcome = "int \<times> real"
type_synonym action = "outcome list"

record policy_data =
  states :: "snapshot list"
  transitions :: "int \<rightharpoonup> (int \<rightharpoonup> action)"
  policy :: "int \<rightharpoonup> int"

definition ACTION_OFFSET :: int where
  "ACTION_OFFSET = 0"

text \<open>\<open>xs[i]\<close> for a JavaScript array and a number \<open>i\<close>.\<close>

definition arr_at :: "'a list \<Rightarrow> int \<Rightarrow> 'a option" where
  "arr_at xs i = (if 0 \<le> i \<and> i < int (length xs) then Some (xs ! nat i) else None)"

text \<open>\<open>this.states[state]\<close>, where \<open>state\<close> itself may be \<open>undefined\<close>.\<close>

definition state_at :: "'a policy_data_scheme \<Rightarrow> int option \<Rightarrow> snapshot option" where
  "state_at P s = (case s of None \<Rightarrow> None | Some i \<Rightarrow> arr_at (states P) i)"

text \<open>\<open>actions[key]\<close>, where the key may be \<open>undefined\<close>.\<close>

definition action_at :: "(int \<rightharpoonup> action) \<Rightarrow> int option \<Rightarrow> action option" where
  "action_at acts k = (case k of None \<Rightarrow> None | Some j \<Rightarrow> acts j)"

text \<open>A status read from a snapshot is energized when it is neither \<open>"D"\<close> nor
  \<open>"U"\<close>; \<open>undefined\<close> (a node index outside the snapshot) passes both
  comparisons of the source and so counts as energized there.\<close>

definition is_D :: "status option \<Rightarrow> bool" where
  "is_D s = (s = Some ''D'')"

definition is_U :: "status option \<Rightarrow> bool" where
  "is_U s = (s = Some ''U'')"

text \<open>\<open>xs.map(f)\<close> where \<open>f\<close> may throw: the first exception, in array
  order, ends the evaluation.\<close>

fun collect :: "(error + 'a) list \<Rightarrow> error + 'a list" where
  "collect [] = Inr []"
| "collect (Inl e # rs) = Inl e"
| "collect (Inr v # rs) = (case collect rs of Inl e \<Rightarrow> Inl e | Inr vs \<Rightarrow> Inr (v # vs))"

section \<open>Depth-bounded energization probability\<close>

text \<open>
  \<open>_energizationProbability(state, nodeIndex, depth)\<close> of \<open>InteractivePolicy\<close>.
  The mapped outcomes are summed by \<open>reduce((a,b) => a+b, 0)\<close>, a left fold.
\<close>

fun energizationProbability_at ::
  "'a policy_data_scheme \<Rightarrow> int \<Rightarrow> nat \<Rightarrow> nat \<Rightarrow> error + real" where
  "energizationProbability_at P state nodeIndex 0 =
     (case state_at P (Some state) of
        None \<Rightarrow> Inl TypeError
      | Some st \<Rightarrow>
          (let s = arr_at st (int nodeIndex)
           in Inr (if is_D s \<or> is_U s then 0 else 1)))"
| "energizationProbability_at P state nodeIndex (Suc d) =
     (case state_at P (Some state) of
        None \<Rightarrow> Inl TypeError
      | Some st \<Rightarrow>
          (let s = arr_at st (int nodeIndex)
           in if is_D s then Inr 0
              else if \<not> is_U s then Inr 1
              else (case transitions P state of
                      None \<Rightarrow> Inl TypeError
                    | Some actions \<Rightarrow>
                        (case action_at actions (policy P state) of
                           None \<Rightarrow> Inr 0
                         | Some act \<Rightarrow>
                             if length act = 1 \<and> fst (act ! 0) - 1 = state then Inr 0
                             else (case collect (map (\<lambda>a.
                                           if fst a - 1 = state then Inr 0
                                           else (case energizationProbability_at P (fst a - 1) nodeIndex d of
                                                   Inl e \<Rightarrow> Inl e
                                                 | Inr v \<Rightarrow> Inr (snd a * v))) act) of
                                     Inl e \<Rightarrow> Inl e
                                   | Inr vs \<Rightarrow> Inr (foldl (+) 0 vs))))))"

text \<open>
  The recursive definition as the specification words it: an outcome is a pair of the
  next state's index and a probability, and the outcome's target is that index.
\<close>

definition status_in :: "'a policy_data_scheme \<Rightarrow> int \<Rightarrow> nat \<Rightarrow> status option" where
  "status_in P s n = (case state_at P (Some s) of None \<Rightarrow> None | Some st \<Rightarrow> arr_at st (int n))"

definition policy_action :: "'a policy_data_scheme \<Rightarrow> int \<Rightarrow> action option" where
  "policy_action P s =
     (case transitions P s of None \<Rightarrow> None | Some acts \<Rightarrow> action_at acts (policy P s))"

fun P_spec :: "'a policy_data_scheme \<Rightarrow> int \<Rightarrow> nat \<Rightarrow> nat \<Rightarrow> real" where
  "P_spec P s n 0 = (if is_D (status_in P s n) \<or> is_U (status_in P s n) then 0 else 1)"
| "P_spec P s n (Suc d) =
     (if is_D (status_in P s n) then 0
      else if \<not> is_U (status_in P s n) then 1
      else (case policy_action P s of
              None \<Rightarrow> 0
            | Some act \<Rightarrow>
                if length act = 1 \<and> fst (act ! 0) = s then 0
                else (\<Sum>a\<leftarrow>act. if fst a = s then 0 else snd a * P_spec P (fst a) n d)))"

text \<open>
  The same recursion with an outcome's target read as the source reads it, one less
  than the recorded index.
\<close>

fun P_one_based :: "'a policy_data_scheme \<Rightarrow> int \<Rightarrow> nat \<Rightarrow> nat \<Rightarrow> real" where
  "P_one_based P s n 0 = (if is_D (status_in P s n) \<or> is_U (status_in P s n) then 0 else 1)"
| "P_one_based P s n (Suc d) =
     (if is_D (status_in P s n) then 0
      else if \<not> is_U (status_in P s n) then 1
      else (case policy_action P s of
              None \<Rightarrow> 0
            | Some act \<Rightarrow>
                if length act = 1 \<and> fst (act ! 0) - 1 = s then 0
                else (\<Sum>a\<leftarrow>act. if fst a - 1 = s then 0
                                else snd a * P_one_based P (fst a - 1) n d)))"

text \<open>A two-state policy: state 0 (node unknown) leads to state 1 (node energized),
  which is terminal by the cursor's own test (its sole outcome returns to state 1).\<close>

definition two_state_policy :: policy_data where
  "two_state_policy =
     \<lparr> states = [[''U''], [''TG'']],
       transitions = [0 \<mapsto> [0 \<mapsto> [(1, 1)]], 1 \<mapsto> [0 \<mapsto> [(1, 1)]]],
       policy = [0 \<mapsto> 0, 1 \<mapsto> 0] \<rparr>"

section \<open>The probability profile, computed with a work queue\<close>

text \<open>
  \<open>_energizationProbabilities(state0, nodeIndex)\<close> keeps a local array
  \<open>results\<close>. A JavaScript array read outside its length gives \<open>undefined\<close>,
  a write past its end leaves holes, and \<open>undefined + p\<close> is \<open>NaN\<close>; the
  array's entries are therefore values of \<open>jsval\<close>.
\<close>

datatype jsval = Undefined | NaN | Num real

fun js_add :: "jsval \<Rightarrow> jsval \<Rightarrow> jsval" where
  "js_add (Num a) (Num b) = Num (a + b)"
| "js_add _ _ = NaN"

fun js_mul :: "jsval \<Rightarrow> jsval \<Rightarrow> jsval" where
  "js_mul (Num a) (Num b) = Num (a * b)"
| "js_mul _ _ = NaN"

fun js_sub :: "jsval \<Rightarrow> jsval \<Rightarrow> jsval" where
  "js_sub (Num a) (Num b) = Num (a - b)"
| "js_sub _ _ = NaN"

definition arr_get :: "jsval list \<Rightarrow> int \<Rightarrow> jsval" where
  "arr_get xs i = (case arr_at xs i of None \<Rightarrow> Undefined | Some v \<Rightarrow> v)"

definition arr_set :: "jsval list \<Rightarrow> nat \<Rightarrow> jsval \<Rightarrow> jsval list" where
  "arr_set xs i v =
     (if i < length xs then xs[i := v]
      else xs @ replicate (i - length xs) Undefined @ [v])"

text \<open>A queue item is \<open>{state, p, depth}\<close>.\<close>

type_synonym qitem = "int \<times> real \<times> nat"

text \<open>\<open>if(typeof results[depth] === "undefined") results[depth] = results[depth-1];\<close>\<close>

definition seeded :: "jsval list \<Rightarrow> nat \<Rightarrow> jsval list" where
  "seeded results depth =
     (if arr_get results (int depth) = Undefined
      then arr_set results depth (arr_get results (int depth - 1))
      else results)"

text \<open>The body of the \<open>while\<close> loop for one dequeued item: the items it pushes
  (in order) and the updated \<open>results\<close>, or the exception it throws.\<close>

definition queue_step ::
  "'a policy_data_scheme \<Rightarrow> nat \<Rightarrow> qitem \<Rightarrow> jsval list \<Rightarrow> error + (qitem list \<times> jsval list)" where
  "queue_step P nodeIndex item results =
     (case item of (state, p, depth) \<Rightarrow>
        (let results1 = seeded results depth
         in case state_at P (Some state) of
              None \<Rightarrow> Inl TypeError
            | Some st \<Rightarrow>
                (let s = arr_at st (int nodeIndex)
                 in if is_D s then Inr ([], results1)
                    else if \<not> is_U s then
                      Inr ([], arr_set results1 depth (js_add (arr_get results1 (int depth)) (Num p)))
                    else (case transitions P state of
                            None \<Rightarrow> Inl TypeError
                          | Some actions \<Rightarrow>
                              (case action_at actions (policy P state) of
                                 None \<Rightarrow> Inr ([], results1)
                               | Some act \<Rightarrow>
                                   Inr (map (\<lambda>a. (fst a - 1, p * snd a, depth + 1))
                                          (filter (\<lambda>a. fst a - 1 \<noteq> state) act),
                                        results1))))))"

text \<open>The loop itself may run forever (a cycle of states in which the node stays
  unknown), so not returning is the value \<open>None\<close>.\<close>

partial_function (option) energizationProbabilities_loop ::
  "'a policy_data_scheme \<Rightarrow> nat \<Rightarrow> qitem list \<Rightarrow> jsval list \<Rightarrow> (error + jsval list) option" where
  "energizationProbabilities_loop P nodeIndex queue results =
     (case queue of
        [] \<Rightarrow> Some (Inr results)
      | item # rest \<Rightarrow>
          (case queue_step P nodeIndex item results of
             Inl e \<Rightarrow> Some (Inl e)
           | Inr (new, results') \<Rightarrow> energizationProbabilities_loop P nodeIndex (rest @ new) results'))"

definition energizationProbabilities_at ::
  "'a policy_data_scheme \<Rightarrow> int \<Rightarrow> nat \<Rightarrow> (error + jsval list) option" where
  "energizationProbabilities_at P state0 nodeIndex =
     energizationProbabilities_loop P nodeIndex [(state0, 1, 0)] [Num 0]"




text \<open>Three states: from state 0 the node is energized in one step with probability
  1/2 (through state 2) and in two steps otherwise (through state 1); the outcome
  indices are written one-based, as \<open>a[0]-1\<close> reads them.\<close>

definition one_based_policy :: policy_data where
  "one_based_policy =
     \<lparr> states = [[''U''], [''U''], [''TG'']],
       transitions = [0 \<mapsto> [0 \<mapsto> [(2, 1/2), (3, 1/2)]],
                      1 \<mapsto> [0 \<mapsto> [(3, 1)]],
                      2 \<mapsto> [0 \<mapsto> [(3, 1)]]],
       policy = [0 \<mapsto> 0, 1 \<mapsto> 0, 2 \<mapsto> 0] \<rparr>"













section \<open>The cumulative sweep over all nodes\<close>

text \<open>
  \<open>_allEnergizationProb(state)\<close> recurses with no depth bound, so the model
  carries fuel: \<open>None\<close> means the fuel ran out. The statement
  \<open>if(a[0]-1 == state) vec.map(() => 0);\<close> of the source builds an array and drops
  it; it returns nothing and changes nothing, so it has no counterpart below.
  \<open>mul[i]\<close> and \<open>b[i]\<close> are read without a bound check (\<open>arr_get\<close>).
\<close>

fun collect_opt :: "(error + 'a) option list \<Rightarrow> (error + 'a list) option" where
  "collect_opt [] = Some (Inr [])"
| "collect_opt (None # rs) = None"
| "collect_opt (Some (Inl e) # rs) = Some (Inl e)"
| "collect_opt (Some (Inr v) # rs) =
     (case collect_opt rs of
        None \<Rightarrow> None
      | Some (Inl e) \<Rightarrow> Some (Inl e)
      | Some (Inr vs) \<Rightarrow> Some (Inr (v # vs)))"

definition known_vec :: "snapshot \<Rightarrow> real option list" where
  "known_vec st = map (\<lambda>s. if s = ''D'' then Some 0 else if s \<noteq> ''U'' then Some 1 else None) st"

definition null_to_zero :: "real option list \<Rightarrow> jsval list" where
  "null_to_zero vec = map (\<lambda>s. case s of None \<Rightarrow> Num 0 | Some v \<Rightarrow> Num v) vec"

definition mul_vec :: "real option list \<Rightarrow> real \<Rightarrow> jsval list" where
  "mul_vec vec p = map (\<lambda>s. case s of None \<Rightarrow> Num p | Some v \<Rightarrow> Num (p * v)) vec"

definition times_at :: "jsval list \<Rightarrow> jsval list \<Rightarrow> jsval list" where
  "times_at r mul = map (\<lambda>(i, p). js_mul p (arr_get mul (int i))) (enumerate 0 r)"

definition plus_at :: "jsval list \<Rightarrow> jsval list \<Rightarrow> jsval list" where
  "plus_at a b = map (\<lambda>(i, n). js_add n (arr_get b (int i))) (enumerate 0 a)"

text \<open>The body of \<open>_allEnergizationProb(state)\<close>, with the function it calls on the
  outcomes' states as \<open>self\<close>.\<close>

definition sweep_body ::
  "(int \<Rightarrow> (error + jsval list) option) \<Rightarrow> 'a policy_data_scheme \<Rightarrow> int
     \<Rightarrow> (error + jsval list) option" where
  "sweep_body self P state =
     (case state_at P (Some state) of
        None \<Rightarrow> Some (Inl TypeError)
      | Some st \<Rightarrow>
          (case transitions P state of
             None \<Rightarrow> Some (Inl TypeError)
           | Some actions \<Rightarrow>
               (case action_at actions (policy P state) of
                  None \<Rightarrow> Some (Inr (null_to_zero (known_vec st)))
                | Some act \<Rightarrow>
                    if length act = 1 \<and> fst (act ! 0) - 1 = state
                    then Some (Inr (null_to_zero (known_vec st)))
                    else (case collect_opt (map (\<lambda>a.
                                  (case self (fst a - 1) of
                                     None \<Rightarrow> None
                                   | Some (Inl e) \<Rightarrow> Some (Inl e)
                                   | Some (Inr r) \<Rightarrow>
                                       Some (Inr (times_at r (mul_vec (known_vec st) (snd a)))))) act) of
                            None \<Rightarrow> None
                          | Some (Inl e) \<Rightarrow> Some (Inl e)
                          | Some (Inr rows) \<Rightarrow>
                              Some (Inr (foldl plus_at (map (\<lambda>_. Num 0) (known_vec st)) rows))))))"

fun allEnergizationProb_at ::
  "nat \<Rightarrow> 'a policy_data_scheme \<Rightarrow> int \<Rightarrow> (error + jsval list) option" where
  "allEnergizationProb_at 0 P state = None"
| "allEnergizationProb_at (Suc fuel) P state = sweep_body (allEnergizationProb_at fuel P) P state"

text \<open>Three states under the cursor's indexing: state 0 branches to state 1 (the node
  energized) and to state 2 (the node damaged), both terminal.\<close>

definition branching_policy :: policy_data where
  "branching_policy =
     \<lparr> states = [[''U''], [''TG''], [''D'']],
       transitions = [0 \<mapsto> [0 \<mapsto> [(1, 1/2), (2, 1/2)]],
                      1 \<mapsto> [0 \<mapsto> [(1, 1)]],
                      2 \<mapsto> [0 \<mapsto> [(2, 1)]]],
       policy = [0 \<mapsto> 0, 1 \<mapsto> 0, 2 \<mapsto> 0] \<rparr>"

text \<open>Two states under the cursor's indexing: state 0 returns to itself or reaches the
  terminal state 1, each with probability 1/2.\<close>

definition self_branch_policy :: policy_data where
  "self_branch_policy =
     \<lparr> states = [[''U''], [''TG'']],
       transitions = [0 \<mapsto> [0 \<mapsto> [(0, 1/2), (1, 1/2)]],
                      1 \<mapsto> [0 \<mapsto> [(1, 1)]]],
       policy = [0 \<mapsto> 0, 1 \<mapsto> 0] \<rparr>"

section \<open>The network graph and its status snapshots (Graph.setState)\<close>

text \<open>
  A node carries \<open>status\<close> (-1 damaged, 0 unknown, positive energized) and its
  failure probability \<open>pf\<close>; a branch carries its two end nodes \<open>nodes\<close>, whose
  order is its direction, and \<open>energized\<close>. The branch objects are shared between
  \<open>this.branches\<close> and the per-node lists \<open>node.branches\<close>, which
  \<open>render\<close> fills by walking \<open>this.branches\<close> in order and pushing each branch
  to the list of its first and then of its second end node; a branch is referred to by
  its position in \<open>this.branches\<close>, and \<open>node_branches\<close> is the list
  \<open>render\<close> builds (reversing a branch's ends does not change it).
\<close>

record node =
  n_status :: int
  n_pf :: real

record branch =
  b_nodes :: "int \<times> int"
  b_energized :: int

record graph =
  nodes :: "node list"
  branches :: "branch list"

definition node_branches :: "graph \<Rightarrow> int \<Rightarrow> nat list" where
  "node_branches g i =
     concat (map (\<lambda>k. (if fst (b_nodes (branches g ! k)) = i then [k] else []) @
                       (if snd (b_nodes (branches g ! k)) = i then [k] else []))
                 [0..<length (branches g)])"

text \<open>A non-negative integer as JavaScript prints it when it is appended to a string.\<close>

fun show_nat :: "nat \<Rightarrow> string" where
  "show_nat n =
     (if n < 10 then [''0123456789'' ! n]
      else show_nat (n div 10) @ [''0123456789'' ! (n mod 10)])"

declare show_nat.simps [simp del]

definition length_error :: "graph \<Rightarrow> error" where
  "length_error g = Error (''State length is not equal to nodes.length '' @ show_nat (length (nodes g)))"

text \<open>\<open>_setState(state)\<close>: the length check, then one status per node.\<close>

definition node_status_of :: "status \<Rightarrow> node \<Rightarrow> node" where
  "node_status_of c nd =
     (if c = ''D'' then nd\<lparr>n_status := - 1\<rparr>
      else if c = ''U'' then nd\<lparr>n_status := 0\<rparr>
      else if n_status nd > 0 then nd\<lparr>n_status := 1\<rparr>
      else nd\<lparr>n_status := 2\<rparr>)"

definition graph_setState_one :: "graph \<Rightarrow> snapshot option \<Rightarrow> error option \<times> graph" where
  "graph_setState_one g state =
     (case state of
        None \<Rightarrow> (Some TypeError, g)
      | Some st \<Rightarrow>
          if length st \<noteq> length (nodes g) then (Some (length_error g), g)
          else (None, g\<lparr>nodes := map (\<lambda>(c, nd). node_status_of c nd) (zip st (nodes g))\<rparr>))"

definition emptyState :: "graph \<Rightarrow> graph" where
  "emptyState g =
     g\<lparr>nodes := map (\<lambda>nd. nd\<lparr>n_status := 0\<rparr>) (nodes g),
       branches := map (\<lambda>b. b\<lparr>b_energized := 0\<rparr>) (branches g)\<rparr>"

text \<open>The candidate predecessors of node \<open>i\<close>: the neighbours whose status in the
  last snapshot is the new status of \<open>i\<close>.\<close>

definition other_end :: "branch \<Rightarrow> int \<Rightarrow> int" where
  "other_end b i = (if fst (b_nodes b) = i then snd (b_nodes b) else fst (b_nodes b))"

definition potentials :: "graph \<Rightarrow> snapshot \<Rightarrow> snapshot \<Rightarrow> nat \<Rightarrow> int list" where
  "potentials g lastState s i =
     filter (\<lambda>other. arr_at lastState other = Some (s ! i))
            (map (\<lambda>k. other_end (branches g ! k) (int i)) (node_branches g (int i)))"

definition diffs_of :: "graph \<Rightarrow> snapshot \<Rightarrow> snapshot \<Rightarrow> (nat \<times> int list) list" where
  "diffs_of g lastState s =
     map (\<lambda>i. (i, potentials g lastState s i))
         (filter (\<lambda>i. arr_at lastState (int i) \<noteq> Some (s ! i) \<and> s ! i \<noteq> ''D'' \<and>
                       potentials g lastState s i \<noteq> [])
                 [0..<length s])"

text \<open>The first position whose candidate list is shortest.\<close>

definition mindiff :: "(nat \<times> int list) list \<Rightarrow> nat" where
  "mindiff diffs' =
     foldl (\<lambda>m i. if length (snd (diffs' ! i)) < length (snd (diffs' ! m)) then i else m)
           0 [1..<length diffs']"

text \<open>The first branch of the target's list that joins target and source, in either
  direction; it is directed from the source to the target and energized.\<close>

fun direct_branch ::
  "graph \<Rightarrow> nat list \<Rightarrow> int \<Rightarrow> int option \<Rightarrow> nat list \<Rightarrow> graph \<times> nat list" where
  "direct_branch g [] target source lastEnergized = (g, lastEnergized)"
| "direct_branch g (k # ks) target source lastEnergized =
     (let b = branches g ! k
      in if fst (b_nodes b) = target \<and> Some (snd (b_nodes b)) = source then
           (g\<lparr>branches := (branches g)[k := b\<lparr>b_nodes := (snd (b_nodes b), fst (b_nodes b)),
                                                 b_energized := 1\<rparr>]\<rparr>,
            lastEnergized @ [k])
         else if Some (fst (b_nodes b)) = source \<and> snd (b_nodes b) = target then
           (g\<lparr>branches := (branches g)[k := b\<lparr>b_energized := 1\<rparr>]\<rparr>, lastEnergized @ [k])
         else direct_branch g ks target source lastEnergized)"

function process_diffs :: "(nat \<times> int list) list \<Rightarrow> graph \<Rightarrow> nat list \<Rightarrow> graph \<times> nat list" where
  "process_diffs diffs' g lastEnergized =
     (if diffs' = [] then (g, lastEnergized)
      else (let m = mindiff diffs';
                d = diffs' ! m;
                rest = take m diffs' @ drop (Suc m) diffs';
                source = arr_at (snd d) 0;
                target = int (fst d);
                (g', le') = direct_branch g (node_branches g target) target source lastEnergized
            in process_diffs rest g' le'))"
  by pat_completeness auto

lemma mindiff_fold_less:
  "m < n \<Longrightarrow> \<forall>i\<in>set is. i < n \<Longrightarrow>
   foldl (\<lambda>m i. if length (snd (diffs' ! i)) < length (snd (diffs' ! m)) then i else m) m is < n"
  by (induction "is" arbitrary: m) auto

lemma mindiff_less: "diffs' \<noteq> [] \<Longrightarrow> mindiff diffs' < length diffs'"
  unfolding mindiff_def by (rule mindiff_fold_less) auto

termination process_diffs
proof (relation "measure (\<lambda>(diffs', g, le). length diffs')")
  show "wf (measure (\<lambda>(diffs', g, le). length diffs'))" by simp
next
  fix diffs' :: "(nat \<times> int list) list" and g :: graph and lastEnergized :: "nat list"
    and x xa xb xc xd xe x1 x2
  assume ne: "diffs' \<noteq> []" and m: "x = mindiff diffs'"
    and rest: "xb = take x diffs' @ drop (Suc x) diffs'"
  have "x < length diffs'" using mindiff_less[OF ne] m by simp
  then have "length xb < length diffs'" using rest by simp
  then show "((xb, x1, x2), diffs', g, lastEnergized) \<in> measure (\<lambda>(diffs', g, le). length diffs')"
    by simp
qed

declare process_diffs.simps [simp del]

text \<open>The loop over the snapshots, with \<open>lastState\<close> (\<open>null\<close> at first) and
  \<open>lastEnergizedBranches\<close> (\<open>undefined\<close> until a second snapshot arrives).\<close>

fun snapshots_loop ::
  "graph \<Rightarrow> snapshot option list \<Rightarrow> snapshot option \<Rightarrow> nat list option
     \<Rightarrow> error option \<times> graph \<times> nat list option" where
  "snapshots_loop g [] lastState lastEnergized = (None, g, lastEnergized)"
| "snapshots_loop g (s # hist) lastState lastEnergized =
     (case graph_setState_one g s of
        (Some e, g1) \<Rightarrow> (Some e, g1, lastEnergized)
      | (None, g1) \<Rightarrow>
          (case (lastState, s) of
             (Some ls, Some st) \<Rightarrow>
               (case process_diffs (diffs_of g1 ls st) g1 [] of
                  (g2, le) \<Rightarrow> snapshots_loop g2 hist s (Some le))
           | _ \<Rightarrow> snapshots_loop g1 hist s lastEnergized))"

text \<open>\<open>setState(hist)\<close> up to and including the final marking pass. What follows it
  in the source redraws the map and fills display fields.\<close>

definition mark_last :: "graph \<Rightarrow> nat list \<Rightarrow> graph" where
  "mark_last g ks =
     fold (\<lambda>k g. g\<lparr>branches := (branches g)[k := (branches g ! k)\<lparr>b_energized := 2\<rparr>]\<rparr>) ks g"

definition graph_setState :: "graph \<Rightarrow> snapshot option list \<Rightarrow> error option \<times> graph" where
  "graph_setState g hist =
     (case snapshots_loop (emptyState g) hist None None of
        (Some e, g1, le) \<Rightarrow> (Some e, g1)
      | (None, g1, None) \<Rightarrow> (Some TypeError, g1)
      | (None, g1, Some ks) \<Rightarrow> (None, mark_last g1 ks))"

text \<open>A path of three nodes, 0 - 1 - 2: node 0 energized over the first branch, node 1
  unknown, node 2 damaged.\<close>

definition path_graph :: graph where
  "path_graph =
     \<lparr> nodes = [\<lparr>n_status = 1, n_pf = 1/10\<rparr>, \<lparr>n_status = 0, n_pf = 1/5\<rparr>, \<lparr>n_status = - 1, n_pf = 1/2\<rparr>],
       branches = [\<lparr>b_nodes = (0, 1), b_energized = 1\<rparr>, \<lparr>b_nodes = (2, 1), b_energized = 0\<rparr>] \<rparr>"

text \<open>A graph of one node and no branch.\<close>

definition single_node_graph :: graph where
  "single_node_graph = \<lparr> nodes = [\<lparr>n_status = 0, n_pf = 1/10\<rparr>], branches = [] \<rparr>"

text \<open>A snapshot fits a graph when it is defined and has one status per node.\<close>

definition fits :: "graph \<Rightarrow> snapshot option \<Rightarrow> bool" where
  "fits g x = (case x of None \<Rightarrow> False | Some t \<Rightarrow> length t = length (nodes g))"

section \<open>The interactive cursor (class InteractivePolicy)\<close>

text \<open>
  The constructor copies the policy's fields into the cursor, so the cursor record
  extends the policy data. \<open>this.end\<close> is the field \<open>ended\<close> and \<open>this.next\<close>
  the field \<open>next_i\<close> (\<open>end\<close> and \<open>next\<close> are reserved words here). A field that
  has not been assigned yet is \<open>undefined\<close>, which is \<open>None\<close>. An entry of
  \<open>previousStates\<close> is \<open>{state, actionNum, next}\<close>; an array element may itself
  be \<open>undefined\<close>. A method returns the exception it throws, if any, together with
  the cursor as the method leaves it.
\<close>

record hentry =
  h_state :: "int option"
  h_actionNum :: "int option"
  h_next :: "int option"

record cursor = policy_data +
  graph :: graph
  ended :: bool
  previousStates :: "hentry option list"
  state :: "int option"
  actions :: "(int \<rightharpoonup> action) option"
  actionNum :: "int option"
  action :: "action option"
  next_i :: "int option"

text \<open>\<open>this.previousStates.map(s => this.states[s.state])\<close>\<close>

definition history_snapshots :: "'a cursor_scheme \<Rightarrow> error + snapshot option list" where
  "history_snapshots c =
     collect (map (\<lambda>s. case s of None \<Rightarrow> Inl TypeError | Some e \<Rightarrow> Inr (state_at c (h_state e)))
                  (previousStates c))"

text \<open>\<open>this.graph.setState(hist)\<close>\<close>

definition show_history :: "'a cursor_scheme \<Rightarrow> snapshot option list \<Rightarrow> error option \<times> 'a cursor_scheme" where
  "show_history c hist =
     (case graph_setState (graph c) hist of (e, g') \<Rightarrow> (e, c\<lparr>graph := g'\<rparr>))"

definition setNext :: "'a cursor_scheme \<Rightarrow> int \<Rightarrow> error option \<times> 'a cursor_scheme" where
  "setNext c i =
     (let c1 = c\<lparr>next_i := Some i\<rparr>
      in case action c1 of
           None \<Rightarrow> (Some TypeError, c1)
         | Some act \<Rightarrow>
             (case arr_at act i of
                None \<Rightarrow> (Some TypeError, c1)
              | Some a \<Rightarrow>
                  (let nextState = state_at c1 (Some (fst a + ACTION_OFFSET))
                   in case history_snapshots c1 of
                        Inl e \<Rightarrow> (Some e, c1)
                      | Inr hist \<Rightarrow> show_history c1 (hist @ [state_at c1 (state c1)] @ [nextState]))))"

text \<open>The test of \<open>setAction\<close> that sets \<open>this.end\<close>.\<close>

definition end_test :: "action option \<Rightarrow> int option \<Rightarrow> bool" where
  "end_test act s =
     (case act of
        Some a \<Rightarrow> length a = 1 \<and> Some (fst (a ! 0) + ACTION_OFFSET) = s
      | None \<Rightarrow> True)"

text \<open>\<open>setAction(actionNum, next)\<close>; the argument \<open>next\<close> is \<open>null\<close>
  (\<open>None\<close>) or a number.\<close>

definition setAction :: "'a cursor_scheme \<Rightarrow> int option \<Rightarrow> int option \<Rightarrow> error option \<times> 'a cursor_scheme" where
  "setAction c actNum nxt =
     (let c1 = c\<lparr>actionNum := actNum\<rparr>
      in case actions c1 of
           None \<Rightarrow> (Some TypeError, c1)
         | Some acts \<Rightarrow>
             (let c2 = c1\<lparr>action := action_at acts actNum\<rparr>;
                  c3 = c2\<lparr>ended := end_test (action c2) (state c2)\<rparr>
              in case (nxt, ended c3) of
                   (Some i, False) \<Rightarrow> setNext c3 i
                 | _ \<Rightarrow>
                     (case history_snapshots c3 of
                        Inl e \<Rightarrow> (Some e, c3)
                      | Inr hist \<Rightarrow>
                          show_history c3 (hist @ [state_at c3 (state c3)] @
                                           (if ended c3 then [state_at c3 (state c3)] else [])))))"

text \<open>\<open>this.transitions[s]\<close> and \<open>this.policy[s]\<close> for a possibly undefined
  \<open>s\<close>.\<close>

definition transitions_at :: "'a policy_data_scheme \<Rightarrow> int option \<Rightarrow> (int \<rightharpoonup> action) option" where
  "transitions_at P s = (case s of None \<Rightarrow> None | Some i \<Rightarrow> transitions P i)"

definition policy_at :: "'a policy_data_scheme \<Rightarrow> int option \<Rightarrow> int option" where
  "policy_at P s = (case s of None \<Rightarrow> None | Some i \<Rightarrow> policy P i)"

text \<open>\<open>setState(state, next = 0)\<close> and \<open>setStateAndAction(state, action, next = 0)\<close>;
  a caller that omits \<open>next\<close> or passes \<open>undefined\<close> passes \<open>Some 0\<close> here.\<close>

definition setState :: "'a cursor_scheme \<Rightarrow> int option \<Rightarrow> int option \<Rightarrow> error option \<times> 'a cursor_scheme" where
  "setState c s nxt =
     (let c1 = c\<lparr>state := s\<rparr>;
          c2 = c1\<lparr>actions := transitions_at c1 (state c1)\<rparr>
      in setAction c2 (policy_at c2 (state c2)) nxt)"

definition setStateAndAction ::
  "'a cursor_scheme \<Rightarrow> int option \<Rightarrow> int option \<Rightarrow> int option \<Rightarrow> error option \<times> 'a cursor_scheme" where
  "setStateAndAction c s act nxt =
     (let c1 = c\<lparr>state := s\<rparr>;
          c2 = c1\<lparr>actions := transitions_at c1 (state c1)\<rparr>
      in setAction c2 act nxt)"

definition default_zero :: "int option \<Rightarrow> int option" where
  "default_zero nxt = (case nxt of None \<Rightarrow> Some 0 | Some i \<Rightarrow> Some i)"

text \<open>\<open>nextState()\<close>: the push comes first, then the read of
  \<open>this.action[this.next][0]\<close>.\<close>

definition nextState :: "'a cursor_scheme \<Rightarrow> error option \<times> 'a cursor_scheme" where
  "nextState c =
     (let c1 = c\<lparr>previousStates := previousStates c @
                   [Some \<lparr>h_state = state c, h_actionNum = actionNum c, h_next = next_i c\<rparr>]\<rparr>
      in case (action c1, next_i c1) of
           (Some act, Some i) \<Rightarrow>
             (case arr_at act i of
                None \<Rightarrow> (Some TypeError, c1)
              | Some a \<Rightarrow> setState c1 (Some (fst a + ACTION_OFFSET)) (Some 0))
         | _ \<Rightarrow> (Some TypeError, c1))"

definition no_previous_state :: error where
  "no_previous_state = Error (''There'' @ [CHR 0x27] @ ''s no previous state'')"

text \<open>\<open>previousState()\<close>: \<open>pop\<close> removes the last element, if there is one.\<close>

definition previousState :: "'a cursor_scheme \<Rightarrow> error option \<times> 'a cursor_scheme" where
  "previousState c =
     (if previousStates c = [] then (Some no_previous_state, c)
      else (let prev = last (previousStates c);
                c1 = c\<lparr>previousStates := butlast (previousStates c)\<rparr>
            in case prev of
                 None \<Rightarrow> (Some no_previous_state, c1)
               | Some e \<Rightarrow> setStateAndAction c1 (h_state e) (h_actionNum e) (default_zero (h_next e))))"

definition nextStateAvailable :: "'a cursor_scheme \<Rightarrow> bool" where
  "nextStateAvailable c = (\<not> ended c)"

text \<open>\<open>new InteractivePolicy(graph, policy)\<close>\<close>

definition blank_cursor :: "graph \<Rightarrow> policy_data \<Rightarrow> cursor" where
  "blank_cursor g P =
     \<lparr> states = states P, transitions = transitions P, policy = policy P,
       graph = g, ended = False, previousStates = [], state = None, actions = None,
       actionNum = None, action = None, next_i = None \<rparr>"

definition new_InteractivePolicy :: "graph \<Rightarrow> policy_data \<Rightarrow> error option \<times> cursor" where
  "new_InteractivePolicy g P = setState (blank_cursor g P) (Some 0) (Some 0)"

text \<open>The flag as the specification words it: the looked-up action is absent, or it
  has exactly one outcome and that outcome's target is the current state.\<close>

definition terminal_at :: "'a policy_data_scheme \<Rightarrow> int option \<Rightarrow> int option \<Rightarrow> bool" where
  "terminal_at P s a =
     (case transitions_at P s of
        None \<Rightarrow> True
      | Some acts \<Rightarrow>
          (case action_at acts a of
             None \<Rightarrow> True
           | Some act \<Rightarrow> length act = 1 \<and> Some (fst (act ! 0)) = s))"


text \<open>A policy whose only state is terminal: its sole action has the single outcome
  \<open>[0, 1.0]\<close>.\<close>

definition self_loop_policy :: policy_data where
  "self_loop_policy =
     \<lparr> states = [[''TG'']], transitions = [0 \<mapsto> [0 \<mapsto> [(0, 1)]]], policy = [0 \<mapsto> 0] \<rparr>"

text \<open>The queries of the cursor on the probability engine.\<close>

definition energizationProbability :: "'a cursor_scheme \<Rightarrow> nat \<Rightarrow> nat \<Rightarrow> error + real" where
  "energizationProbability c nodeIndex depth =
     (case state c of
        None \<Rightarrow> Inl TypeError
      | Some s \<Rightarrow> energizationProbability_at c s nodeIndex depth)"

definition energizationProbabilities :: "'a cursor_scheme \<Rightarrow> nat \<Rightarrow> (error + jsval list) option" where
  "energizationProbabilities c nodeIndex =
     (case state c of
        None \<Rightarrow> Some (Inl TypeError)
      | Some s \<Rightarrow> energizationProbabilities_at c s nodeIndex)"

definition allEnergizationProb :: "nat \<Rightarrow> 'a cursor_scheme \<Rightarrow> (error + jsval list) option" where
  "allEnergizationProb fuel c =
     (case state c of
        None \<Rightarrow> Some (Inl TypeError)
      | Some s \<Rightarrow> allEnergizationProb_at fuel c s)"

definition cumulativePfs :: "nat \<Rightarrow> 'a cursor_scheme \<Rightarrow> (error + jsval list) option" where
  "cumulativePfs fuel c =
     (case allEnergizationProb fuel c of
        None \<Rightarrow> None
      | Some (Inl e) \<Rightarrow> Some (Inl e)
      | Some (Inr v) \<Rightarrow> Some (Inr (map (\<lambda>a. js_sub (Num 1) a) v)))"


text \<open>The cursor built on the one-node graph from the two-state policy.\<close>

definition two_state_cursor :: cursor where
  "two_state_cursor = snd (new_InteractivePolicy single_node_graph two_state_policy)"

text \<open>\<open>update(policy, next = 0)\<close>: \<open>Object.assign(this, policy)\<close> replaces the
  policy's fields; \<open>this.actions\<close> is not read again from the new \<open>transitions\<close>
  before \<open>setAction\<close> looks the action up.\<close>

definition update :: "'a cursor_scheme \<Rightarrow> policy_data \<Rightarrow> int option \<Rightarrow> error option \<times> 'a cursor_scheme" where
  "update c P nxt =
     (let c1 = c\<lparr>states := states P, transitions := transitions P, policy := policy P\<rparr>
      in setAction c1 (policy_at c1 (state c1)) nxt)"


text \<open>A policy on three states in which state 0 is terminal and state 2 leads to
  state 1.\<close>

definition rerouted_policy :: policy_data where
  "rerouted_policy =
     \<lparr> states = [[''U''], [''TG''], [''U'']],
       transitions = [0 \<mapsto> [0 \<mapsto> [(0, 1)]],
                      1 \<mapsto> [0 \<mapsto> [(1, 1)]],
                      2 \<mapsto> [0 \<mapsto> [(1, 1)]]],
       policy = [0 \<mapsto> 0, 1 \<mapsto> 0, 2 \<mapsto> 0] \<rparr>"


text \<open>The cursor built on the branching policy, the same cursor after \<open>update\<close> with
  the rerouted policy, and after \<open>setNext(1)\<close>.\<close>

definition branching_cursor :: cursor where
  "branching_cursor = snd (new_InteractivePolicy single_node_graph branching_policy)"


definition updated_cursor :: cursor where
  "updated_cursor = snd (update branching_cursor rerouted_policy (Some 0))"


definition stale_cursor :: cursor where
  "stale_cursor = snd (setNext updated_cursor 1)"


text \<open>A policy whose \<open>transitions\<close> has no entry for its terminal state 1, and the
  cursor built on it.\<close>

definition open_policy :: policy_data where
  "open_policy =
     \<lparr> states = [[''U''], [''TG'']], transitions = [0 \<mapsto> [0 \<mapsto> [(1, 1)]]], policy = [0 \<mapsto> 0] \<rparr>"


definition open_cursor :: cursor where
  "open_cursor = snd (new_InteractivePolicy single_node_graph open_policy)"


section \<open>The linear cursor (class LinearPolicy)\<close>

record linear = cursor +
  steps :: "int list"
  fullHistory :: "hentry option list"
  index :: nat

text \<open>
  The loop of \<open>getStepsFromPolicy\<close>, on \<open>current\<close>, \<open>this.steps\<close> and
  \<open>this.fullHistory\<close>. It may run forever (a cycle of first outcomes), so not
  returning is \<open>None\<close>; it returns the exception it throws, if any, and the three
  values as it leaves them.
\<close>

partial_function (option) steps_loop ::
  "'a policy_data_scheme \<Rightarrow> int \<Rightarrow> int list \<Rightarrow> hentry option list
     \<Rightarrow> (error option \<times> int \<times> int list \<times> hentry option list) option" where
  "steps_loop P current stps fh =
     (if current < int (length (states P)) then
        (case transitions P current of
           None \<Rightarrow> Some (Some TypeError, current, stps, fh)
         | Some acts \<Rightarrow>
             (case action_at acts (policy P current) of
                None \<Rightarrow> Some (Some TypeError, current, stps, fh)
              | Some [] \<Rightarrow> Some (Some TypeError, current, stps, fh)
              | Some (a # _) \<Rightarrow>
                  (let nxt = fst a + ACTION_OFFSET
                   in if nxt = current then Some (None, current, stps, fh)
                      else (let fh1 = fh @ [Some \<lparr>h_state = Some current,
                                                   h_actionNum = policy P current,
                                                   h_next = Some 0\<rparr>]
                            in case state_at P (Some nxt) of
                                 None \<Rightarrow> Some (None, current, stps, fh1)
                               | Some _ \<Rightarrow> steps_loop P nxt (stps @ [nxt]) fh1))))
      else Some (None, current, stps, fh))"

text \<open>\<open>getStepsFromPolicy()\<close>: after the loop, \<open>current\<close> is pushed once more and
  so is the last element of \<open>fullHistory\<close> (\<open>undefined\<close> when it is empty).\<close>

definition getStepsFromPolicy :: "linear \<Rightarrow> (error option \<times> linear) option" where
  "getStepsFromPolicy c =
     (case steps_loop c 0 [0] [] of
        None \<Rightarrow> None
      | Some (Some e, current, stps, fh) \<Rightarrow> Some (Some e, c\<lparr>steps := stps, fullHistory := fh\<rparr>)
      | Some (None, current, stps, fh) \<Rightarrow>
          Some (None, c\<lparr>steps := stps @ [current],
                        fullHistory := fh @ [if fh = [] then None else last fh]\<rparr>))"

text \<open>\<open>goTo(index)\<close>; \<open>slice(0, index-1)\<close> for \<open>index \<ge> 1\<close> is the first
  \<open>index - 1\<close> elements.\<close>

definition goTo :: "linear \<Rightarrow> nat \<Rightarrow> error option \<times> linear" where
  "goTo c i =
     (let c1 = c\<lparr>index := i\<rparr>
      in if index c1 = 0 then
           setState (c1\<lparr>previousStates := []\<rparr>) (arr_at (steps c1) 0) None
         else
           setState (c1\<lparr>previousStates := take (index c1 - 1) (fullHistory c1)\<rparr>)
                    (arr_at (steps c1) (int (index c1) - 1)) (Some 0))"

definition updateSteps :: "linear \<Rightarrow> (error option \<times> linear) option" where
  "updateSteps c =
     (case getStepsFromPolicy c of
        None \<Rightarrow> None
      | Some (Some e, c1) \<Rightarrow> Some (Some e, c1)
      | Some (None, c1) \<Rightarrow> Some (goTo c1 0))"

text \<open>\<open>successProbability(index)\<close>: the loop over the nodes of the step's snapshot,
  from position \<open>i\<close> on, with the product \<open>p\<close> so far. \<open>node.status\<close> is read
  only when the status symbol is neither \<open>"D"\<close> nor \<open>"U"\<close>.\<close>

fun successProbability_loop :: "graph \<Rightarrow> snapshot \<Rightarrow> int \<Rightarrow> real \<Rightarrow> error + real" where
  "successProbability_loop g [] i p = Inr p"
| "successProbability_loop g (c # rest) i p =
     (if c \<noteq> ''D'' \<and> c \<noteq> ''U'' then
        (case arr_at (nodes g) i of
           None \<Rightarrow> Inl TypeError
         | Some nd \<Rightarrow>
             successProbability_loop g rest (i + 1)
               (if n_status nd = 0 then p * (1 - n_pf nd) else p))
      else successProbability_loop g rest (i + 1) p)"

definition successProbability :: "linear \<Rightarrow> int \<Rightarrow> error + real" where
  "successProbability c i =
     (case state_at c (arr_at (steps c) i) of
        None \<Rightarrow> Inl TypeError
      | Some step \<Rightarrow> successProbability_loop (graph c) step 0 1)"

text \<open>The claim's reading of \<open>successProbability\<close>: one factor \<open>1 - pf\<close> for each node
  whose status symbol in the step's snapshot is \<open>"U"\<close>.\<close>

definition unknown_product :: "graph \<Rightarrow> snapshot \<Rightarrow> real" where
  "unknown_product g step =
     (\<Prod>x\<leftarrow>filter (\<lambda>x. fst x = ''U'') (zip step (nodes g)). 1 - n_pf (snd x))"

text \<open>What the source multiplies: one factor for each node that the step's snapshot
  shows energized and whose status on the graph is 0.\<close>

definition pending_product :: "graph \<Rightarrow> snapshot \<Rightarrow> real" where
  "pending_product g step =
     (\<Prod>x\<leftarrow>filter (\<lambda>x. fst x \<noteq> ''D'' \<and> fst x \<noteq> ''U'' \<and> n_status (snd x) = 0)
                   (zip step (nodes g)). 1 - n_pf (snd x))"

text \<open>The entry \<open>getStepsFromPolicy\<close> records for a state it leaves: the state, its
  recommended action and outcome 0.\<close>

definition entry_for :: "'a policy_data_scheme \<Rightarrow> int \<Rightarrow> hentry option" where
  "entry_for P s = Some \<lparr>h_state = Some s, h_actionNum = policy P s, h_next = Some 0\<rparr>"

text \<open>The loop of \<open>getStepsFromPolicy\<close> keeps one entry for each state of
  \<open>steps\<close> but the last, which is \<open>current\<close>; when it ends, after the
  \<open>break\<close> on an undefined next state there is an entry for the last state too.\<close>

definition steps_inv :: "'a policy_data_scheme \<Rightarrow> int \<Rightarrow> int list \<Rightarrow> hentry option list \<Rightarrow> bool" where
  "steps_inv P cur stps fh =
     (stps \<noteq> [] \<and> last stps = cur \<and> length stps = Suc (length fh) \<and>
      fh = map (entry_for P) (butlast stps))"

definition steps_post :: "'a policy_data_scheme \<Rightarrow> int \<Rightarrow> int list \<Rightarrow> hentry option list \<Rightarrow> bool" where
  "steps_post P cur stps fh =
     (stps \<noteq> [] \<and> last stps = cur \<and>
      (fh = map (entry_for P) (butlast stps) \<or> fh = map (entry_for P) stps))"

text \<open>The linear cursor of the two-state policy on the one-node graph, before
  \<open>updateSteps\<close>, and after \<open>getStepsFromPolicy\<close>.\<close>

definition two_state_linear0 :: linear where
  "two_state_linear0 = cursor.extend two_state_cursor \<lparr>steps = [], fullHistory = [], index = 0\<rparr>"

definition two_state_linear :: linear where
  "two_state_linear = two_state_linear0\<lparr>steps := [0, 1, 1],
     fullHistory := [entry_for two_state_policy 0, entry_for two_state_policy 0]\<rparr>"

section \<open>Properties of the probability engine\<close>

lemma two_state_spec: "P_spec two_state_policy 0 0 1 = 1"
  by (simp add: two_state_policy_def state_at_def arr_at_def is_D_def is_U_def action_at_def
      status_in_def policy_action_def)

lemma two_state_code: "energizationProbability_at two_state_policy 0 0 1 = Inr 0"
  by (simp add: two_state_policy_def state_at_def arr_at_def is_D_def is_U_def action_at_def)

text \<open>
  C1. The claim equates \<open>_energizationProbability\<close> with the recursion over the
  outcomes' target states. The source reads an outcome's target as \<open>a[0]-1\<close>,
  while the cursor of the same class (\<open>setAction\<close>, \<open>nextState\<close>) reads it as
  \<open>a[0] + ACTION_OFFSET\<close> with \<open>ACTION_OFFSET = 0\<close>. On the two-state policy
  the source takes the outcome \<open>[1, 1.0]\<close> of state 0 for a self-loop and returns 0,
  where the recursion of the claim gives 1.
\<close>

theorem energizationProbability_off_by_one:
  "energizationProbability_at two_state_policy 0 0 1 = Inr 0 \<and>
   P_spec two_state_policy 0 0 1 = 1"
  by (rule conjI[OF two_state_code two_state_spec])

lemma foldl_plus_sum: "foldl (+) (a::real) xs = a + sum_list xs"
  by (induction xs arbitrary: a) auto

lemma collect_map_Inr:
  "collect (map f xs) = Inr vs \<Longrightarrow> (\<And>x v. x \<in> set xs \<Longrightarrow> f x = Inr v \<Longrightarrow> v = g x)
   \<Longrightarrow> vs = map g xs"
proof (induction xs arbitrary: vs)
  case Nil
  then show ?case by simp
next
  case (Cons x xs)
  from Cons.prems(1) obtain v vs' where fx: "f x = Inr v" and rest: "collect (map f xs) = Inr vs'"
    and vs: "vs = v # vs'"
    by (cases "f x"; cases "collect (map f xs)") auto
  have "v = g x" using Cons.prems(2)[of x v] fx by simp
  moreover have "vs' = map g xs" using Cons.IH[OF rest] Cons.prems(2) by simp
  ultimately show ?case using vs by simp
qed


text \<open>
  What the source computes: whenever \<open>_energizationProbability\<close> returns, its value
  is that of the recursion with each outcome's target read as \<open>a[0]-1\<close>.
\<close>

theorem energizationProbability_one_based:
  "energizationProbability_at P s n d = Inr v \<Longrightarrow> v = P_one_based P s n d"
proof (induction d arbitrary: s v)
  case 0
  then show ?case
    by (auto simp: status_in_def Let_def split: option.splits if_splits)
next
  case (Suc d)
  from Suc.prems obtain st where st: "state_at P (Some s) = Some st"
    by (cases "state_at P (Some s)") auto
  have sym: "status_in P s n = arr_at st (int n)" by (simp add: status_in_def st)
  show ?case
  proof (cases "is_D (arr_at st (int n)) \<or> \<not> is_U (arr_at st (int n))")
    case True
    then show ?thesis using Suc.prems st sym by (auto simp: Let_def)
  next
    case False
    then have u: "\<not> is_D (arr_at st (int n))" "is_U (arr_at st (int n))" by auto
    from Suc.prems st u obtain acts where tr: "transitions P s = Some acts"
      by (cases "transitions P s") (auto simp: Let_def)
    show ?thesis
    proof (cases "action_at acts (policy P s)")
      case None
      then show ?thesis using Suc.prems st sym u tr by (simp add: Let_def policy_action_def)
    next
      case (Some act)
      have pa: "policy_action P s = Some act" by (simp add: policy_action_def tr Some)
      show ?thesis
      proof (cases "length act = 1 \<and> fst (act ! 0) - 1 = s")
        case True
        then show ?thesis using Suc.prems st sym u tr Some pa by (simp add: Let_def)
      next
        case False
        let ?f = "\<lambda>a. if fst a - 1 = s then Inr 0
                     else (case energizationProbability_at P (fst a - 1) n d of
                             Inl e \<Rightarrow> Inl e | Inr v \<Rightarrow> Inr (snd a * v))"
        let ?g = "\<lambda>a. if fst a - 1 = s then 0 else snd a * P_one_based P (fst a - 1) n d"
        from Suc.prems st u tr Some False obtain vs where
          c: "collect (map ?f act) = Inr vs" and v: "v = foldl (+) 0 vs"
          by (cases "collect (map ?f act)") (auto simp: Let_def)
        have "vs = map ?g act"
        proof (rule collect_map_Inr[OF c])
          fix x w assume "x \<in> set act" and fx: "?f x = Inr w"
          show "w = ?g x"
          proof (cases "fst x - 1 = s")
            case True
            then show ?thesis using fx by simp
          next
            case False
            then obtain w' where r: "energizationProbability_at P (fst x - 1) n d = Inr w'"
              and w: "w = snd x * w'"
              using fx by (cases "energizationProbability_at P (fst x - 1) n d") auto
            from Suc.IH[OF r] w False show ?thesis by simp
          qed
        qed
        then have "v = sum_list (map ?g act)" using v by (simp add: foldl_plus_sum)
        then show ?thesis using sym u pa False by auto
      qed
    qed
  qed
qed

lemma one_based_depth_two: "energizationProbability_at one_based_policy 0 0 2 = Inr 1"
  by (simp add: eval_nat_numeral one_based_policy_def state_at_def arr_at_def is_D_def is_U_def
      action_at_def)

theorem energizationProbability_one_based_witness:
  "energizationProbability_at one_based_policy 0 0 2 = Inr 1 \<and>
   (1::real) = P_one_based one_based_policy 0 0 2"
  using energizationProbability_one_based[OF one_based_depth_two] one_based_depth_two by simp

subsection \<open>The work-queue profile\<close>






































subsection \<open>The cumulative sweep\<close>

lemma branching_head:
  "state_at branching_policy (Some 0) = Some [''U''] \<and>
   transitions branching_policy 0 = Some [0 \<mapsto> [(1, 1/2), (2, 1/2)]] \<and>
   policy branching_policy 0 = Some 0"
  by (simp add: branching_policy_def state_at_def arr_at_def)

lemma self_branch_head:
  "state_at self_branch_policy (Some 0) = Some [''U''] \<and>
   state_at self_branch_policy (Some (- 1)) = None \<and>
   transitions self_branch_policy 0 = Some [0 \<mapsto> [(0, 1/2), (1, 1/2)]] \<and>
   policy self_branch_policy 0 = Some 0"
  by (simp add: self_branch_policy_def state_at_def arr_at_def)

text \<open>More fuel does not change a result: \<open>None\<close> for every fuel means that the
  recursion does not end.\<close>

lemma collect_opt_mono:
  "collect_opt (map f xs) = Some R \<Longrightarrow> (\<And>x r. x \<in> set xs \<Longrightarrow> f x = Some r \<Longrightarrow> g x = Some r)
   \<Longrightarrow> collect_opt (map g xs) = Some R"
proof (induction xs arbitrary: R)
  case Nil
  then show ?case by simp
next
  case (Cons x xs)
  from Cons.prems(1) obtain r where fx: "f x = Some r" by (cases "f x") auto
  then have gx: "g x = Some r" using Cons.prems(2) by simp
  show ?case
  proof (cases r)
    case (Inl e)
    then show ?thesis using Cons.prems(1) fx gx by simp
  next
    case (Inr v)
    from Cons.prems(1) fx Inr obtain R' where rest: "collect_opt (map f xs) = Some R'"
      by (cases "collect_opt (map f xs)") auto
    have "collect_opt (map g xs) = Some R'" using Cons.IH[OF rest] Cons.prems(2) by simp
    then show ?thesis using Cons.prems(1) fx gx Inr rest by simp
  qed
qed

lemma sweep_body_mono:
  assumes le: "\<And>s r. self s = Some r \<Longrightarrow> self' s = Some r"
    and run: "sweep_body self P s = Some r"
  shows "sweep_body self' P s = Some r"
proof -
  let ?f = "\<lambda>self st a. (case self (fst a - 1) of
                       None \<Rightarrow> None
                     | Some (Inl e) \<Rightarrow> Some (Inl e)
                     | Some (Inr r) \<Rightarrow> Some (Inr (times_at r (mul_vec (known_vec st) (snd a)))))"
  have step: "\<And>st act R. collect_opt (map (?f self st) act) = Some R \<Longrightarrow>
                collect_opt (map (?f self' st) act) = Some R"
  proof -
    fix st act R
    assume c: "collect_opt (map (?f self st) act) = Some R"
    show "collect_opt (map (?f self' st) act) = Some R"
    proof (rule collect_opt_mono[OF c])
      fix x r assume fx: "?f self st x = Some r"
      then obtain r' where "self (fst x - 1) = Some r'"
        by (cases "self (fst x - 1)") auto
      from le[OF this] fx this show "?f self' st x = Some r" by simp
    qed
  qed
  show ?thesis
  proof (cases "state_at P (Some s)")
    case None
    then show ?thesis using run by (simp add: sweep_body_def)
  next
    case st: (Some st)
    show ?thesis
    proof (cases "transitions P s")
      case None
      then show ?thesis using run st by (simp add: sweep_body_def)
    next
      case tr: (Some acts)
      show ?thesis
      proof (cases "action_at acts (policy P s)")
        case None
        then show ?thesis using run st tr by (simp add: sweep_body_def)
      next
        case (Some act)
        show ?thesis
        proof (cases "length act = 1 \<and> fst (act ! 0) - 1 = s")
          case True
          then show ?thesis using run st tr Some by (simp add: sweep_body_def)
        next
          case False
          define G :: "(error + jsval list list) option \<Rightarrow> (error + jsval list) option"
            where "G = (\<lambda>R. case R of
                None \<Rightarrow> None
              | Some (Inl e) \<Rightarrow> Some (Inl e)
              | Some (Inr rows) \<Rightarrow>
                  Some (Inr (foldl plus_at (map (\<lambda>_. Num 0) (known_vec st)) rows)))"
          have e: "\<And>sf. sweep_body sf P s = G (collect_opt (map (?f sf st) act))"
            using st tr Some False by (auto simp: sweep_body_def G_def)
          from run have g: "G (collect_opt (map (?f self st) act)) = Some r" by (simp only: e)
          then obtain R where c: "collect_opt (map (?f self st) act) = Some R"
            by (cases "collect_opt (map (?f self st) act)") (auto simp: G_def)
          show ?thesis using g by (simp only: e c step[OF c])
        qed
      qed
    qed
  qed
qed

lemma allEnergizationProb_more_fuel:
  "allEnergizationProb_at fuel P s = Some r \<Longrightarrow> allEnergizationProb_at (Suc fuel) P s = Some r"
proof (induction fuel arbitrary: s r)
  case 0
  then show ?case by simp
next
  case (Suc fuel)
  have "sweep_body (allEnergizationProb_at (Suc fuel) P) P s = Some r"
    by (rule sweep_body_mono[of "allEnergizationProb_at fuel P"]) (use Suc in simp_all)
  then show ?case by simp
qed

text \<open>
  C6. In \<open>_allEnergizationProb\<close> the guard \<open>if(a[0]-1 == state) vec.map(() => 0);\<close>
  has no \<open>return\<close>, unlike the guard of \<open>_energizationProbability\<close>, so an outcome
  that the source takes for a self-loop is followed. On the branching policy the first
  outcome of state 0 is \<open>[1, 0.5]\<close>, \<open>a[0]-1\<close> is 0, and the sweep calls itself on
  state 0 again: whatever the fuel, it is used up. On the policy whose state 0 has the
  outcome \<open>[0, 0.5]\<close>, a self-loop as the cursor reads it, the sweep follows the
  outcome to \<open>states[-1]\<close> and throws a \<open>TypeError\<close>. In neither case does the
  outcome contribute 0.
\<close>

theorem allEnergizationProb_reenters_state:
  "(\<forall>fuel. allEnergizationProb_at fuel branching_policy 0 = None) \<and>
   (\<forall>fuel. allEnergizationProb_at (Suc (Suc fuel)) self_branch_policy 0 = Some (Inl TypeError))"
proof (intro conjI allI)
  fix fuel
  show "allEnergizationProb_at fuel branching_policy 0 = None"
  proof (induction fuel)
    case 0
    show ?case by simp
  next
    case (Suc fuel)
    then show ?case
      by (simp add: sweep_body_def branching_head action_at_def)
  qed
next
  fix fuel
  show "allEnergizationProb_at (Suc (Suc fuel)) self_branch_policy 0 = Some (Inl TypeError)"
    by (simp add: sweep_body_def self_branch_head action_at_def)
qed

lemma allEnergizationProb_returns:
  "allEnergizationProb_at 3 one_based_policy 0 = Some (Inr [Num 1])"
  by (simp add: eval_nat_numeral sweep_body_def one_based_policy_def state_at_def arr_at_def
      action_at_def known_vec_def null_to_zero_def mul_vec_def times_at_def plus_at_def arr_get_def)

section \<open>Properties of Graph.setState\<close>

lemma length_error_emptyState: "length_error (emptyState g) = length_error g"
  by (simp add: length_error_def emptyState_def)

lemma graph_setState_one_nodes:
  "graph_setState_one g s = (None, g1) \<Longrightarrow> length (nodes g1) = length (nodes g)"
  by (auto simp: graph_setState_one_def split: option.splits if_splits)

lemma direct_branch_nodes: "nodes (fst (direct_branch g ks t src le)) = nodes g"
  by (induction ks) (auto simp: Let_def)

lemma process_diffs_nodes: "nodes (fst (process_diffs ds g le)) = nodes g"
proof (induction ds g le rule: process_diffs.induct)
  case (1 ds g le)
  show ?case
  proof (cases "ds = []")
    case True
    then show ?thesis by (subst process_diffs.simps) simp
  next
    case False
    let ?m = "mindiff ds"
    let ?r = "direct_branch g (node_branches g (int (fst (ds ! ?m)))) (int (fst (ds ! ?m)))
                (arr_at (snd (ds ! ?m)) 0) le"
    have "nodes (fst (process_diffs (take ?m ds @ drop (Suc ?m) ds) (fst ?r) (snd ?r))) = nodes (fst ?r)"
      by (rule "1.IH"[OF False refl refl refl refl refl refl prod.collapse])
    also have "nodes (fst ?r) = nodes g" by (rule direct_branch_nodes)
    finally show ?thesis
      using False by (subst process_diffs.simps) (simp add: Let_def case_prod_beta)
  qed
qed

lemma graph_setState_one_fits:
  "fits g x \<Longrightarrow> \<exists>g1. graph_setState_one g x = (None, g1) \<and> length (nodes g1) = length (nodes g)"
  by (auto simp: fits_def graph_setState_one_def split: option.splits)

lemma fits_cong: "length (nodes g') = length (nodes g) \<Longrightarrow> fits g' x = fits g x"
  by (simp add: fits_def split: option.splits)

lemma snapshots_loop_fits:
  "\<forall>x\<in>set pre. fits g x \<Longrightarrow>
   \<exists>g1 ls1 le1. snapshots_loop g pre ls le = (None, g1, le1) \<and>
      length (nodes g1) = length (nodes g) \<and>
      snapshots_loop g (pre @ rest) ls le = snapshots_loop g1 rest ls1 le1"
proof (induction pre arbitrary: g ls le)
  case Nil
  show ?case by (intro exI[of _ g] exI[of _ ls] exI[of _ le]) simp
next
  case (Cons x pre)
  from Cons.prems have fx: "fits g x" by simp
  then obtain t where x: "x = Some t" by (auto simp: fits_def split: option.splits)
  from graph_setState_one_fits[OF fx] obtain g1 where
    g1: "graph_setState_one g x = (None, g1)" "length (nodes g1) = length (nodes g)" by blast
  show ?case
  proof (cases ls)
    case None
    have "\<forall>y\<in>set pre. fits g1 y" using Cons.prems fits_cong[OF g1(2)] by simp
    from Cons.IH[OF this, of x le] show ?thesis using g1 None x by auto
  next
    case (Some l)
    obtain g2 le2 where pd: "process_diffs (diffs_of g1 l t) g1 [] = (g2, le2)"
      by (cases "process_diffs (diffs_of g1 l t) g1 []") auto
    have "nodes g2 = nodes g1" using process_diffs_nodes[of "diffs_of g1 l t" g1 "[]"] pd by simp
    then have len: "length (nodes g2) = length (nodes g)" using g1(2) by simp
    have "\<forall>y\<in>set pre. fits g2 y" using Cons.prems fits_cong[OF len] by simp
    from Cons.IH[OF this, of x "Some le2"] show ?thesis using g1 Some x pd len by auto
  qed
qed

lemma snapshots_loop_mismatch:
  "length s \<noteq> length (nodes g) \<Longrightarrow>
   snapshots_loop g (Some s # post) ls le = (Some (length_error g), g, le)"
  by (simp add: graph_setState_one_def)

lemma length_error_cong: "length (nodes g') = length (nodes g) \<Longrightarrow> length_error g' = length_error g"
  by (simp add: length_error_def)

lemma graph_setState_mismatch_at:
  assumes pre: "\<forall>x\<in>set pre. fits g x" and s: "length s \<noteq> length (nodes g)"
  shows "graph_setState g (pre @ Some s # post) =
           (Some (length_error g), fst (snd (snapshots_loop (emptyState g) pre None None)))"
proof -
  have len0: "length (nodes (emptyState g)) = length (nodes g)" by (simp add: emptyState_def)
  have "\<forall>x\<in>set pre. fits (emptyState g) x" using pre fits_cong[OF len0] by simp
  from snapshots_loop_fits[OF this, of None None "Some s # post"] obtain g1 ls1 le1 where
    a: "snapshots_loop (emptyState g) pre None None = (None, g1, le1)"
       "length (nodes g1) = length (nodes (emptyState g))"
       "snapshots_loop (emptyState g) (pre @ Some s # post) None None
          = snapshots_loop g1 (Some s # post) ls1 le1" by blast
  have "length s \<noteq> length (nodes g1)" using a(2) len0 s by simp
  from snapshots_loop_mismatch[OF this] a(3) have
    "snapshots_loop (emptyState g) (pre @ Some s # post) None None = (Some (length_error g1), g1, le1)"
    by simp
  moreover have "length_error g1 = length_error g"
    using length_error_cong[of g1 g] a(2) len0 by simp
  ultimately show ?thesis using a(1) by (simp add: graph_setState_def)
qed


lemma show_nat_3: "show_nat (Suc (Suc (Suc 0))) = ''3''"
  by (subst show_nat.simps) (simp add: eval_nat_numeral)

lemma show_nat_1: "show_nat (Suc 0) = ''1''"
  by (subst show_nat.simps) simp

lemma path_graph_short:
  "graph_setState path_graph [Some [''U'', ''U'']] =
     (Some (Error ''State length is not equal to nodes.length 3''), emptyState path_graph)"
  using graph_setState_mismatch_at[of "[]" path_graph "[''U'', ''U'']" "[]"]
  by (simp add: length_error_def path_graph_def show_nat_3)

text \<open>
  C9, as stated, fails: \<open>setState\<close> calls \<open>emptyState\<close> before any length is
  checked. On the path graph a history whose only snapshot has two entries raises the
  length error, and every node status and every \<open>energized\<close> field has been reset.
\<close>

theorem graph_setState_mutates_before_error:
  "fst (graph_setState path_graph [Some [''U'', ''U'']])
     = Some (Error ''State length is not equal to nodes.length 3'') \<and>
   map n_status (nodes path_graph) = [1, 0, - 1] \<and>
   map n_status (nodes (snd (graph_setState path_graph [Some [''U'', ''U'']]))) = [0, 0, 0] \<and>
   map b_energized (branches path_graph) = [1, 0] \<and>
   map b_energized (branches (snd (graph_setState path_graph [Some [''U'', ''U'']]))) = [0, 0]"
  by (simp add: path_graph_short) (simp add: path_graph_def emptyState_def)

text \<open>
  C9, amended. A history of defined snapshots, one of which has a length other than
  the number of nodes, makes \<open>setState\<close> throw the error
  \<open>"State length is not equal to nodes.length N"\<close>, \<open>N\<close> the number of nodes. It
  is thrown when the loop reaches the first such snapshot: the graph is then what
  \<open>emptyState\<close> and the snapshots before that one have made of it, and the snapshot
  that does not fit has not been applied.
\<close>

theorem graph_setState_length_error:
  assumes defined: "None \<notin> set hist"
    and bad: "\<exists>s. Some s \<in> set hist \<and> length s \<noteq> length (nodes g)"
  shows "\<exists>pre s post. hist = pre @ Some s # post \<and> (\<forall>x\<in>set pre. fits g x) \<and>
           length s \<noteq> length (nodes g) \<and>
           graph_setState g hist =
             (Some (length_error g), fst (snd (snapshots_loop (emptyState g) pre None None)))"
proof -
  from bad obtain s0 where "Some s0 \<in> set hist" "\<not> fits g (Some s0)"
    by (auto simp: fits_def)
  then have "\<exists>x\<in>set hist. \<not> fits g x" by blast
  from split_list_first_prop[OF this] obtain pre x post where
    h: "hist = pre @ x # post" "\<not> fits g x" "\<forall>y\<in>set pre. \<not> \<not> fits g y" by blast
  from h(1) defined obtain s where x: "x = Some s" by (cases x) auto
  have s: "length s \<noteq> length (nodes g)" using h(2) x by (simp add: fits_def)
  have pre: "\<forall>y\<in>set pre. fits g y" using h(3) by simp
  show ?thesis
    using graph_setState_mismatch_at[OF pre s, of post] h(1) x pre s by blast
qed

theorem graph_setState_length_error_witness:
  "None \<notin> set [Some [''U'', ''U'', ''U''], Some [''U'', ''U'']] \<and>
   (\<exists>s. Some s \<in> set [Some [''U'', ''U'', ''U''], Some [''U'', ''U'']] \<and>
        length s \<noteq> length (nodes path_graph)) \<and>
   (\<exists>pre s post. [Some [''U'', ''U'', ''U''], Some [''U'', ''U'']] = pre @ Some s # post \<and>
        (\<forall>x\<in>set pre. fits path_graph x) \<and> length s \<noteq> length (nodes path_graph) \<and>
        graph_setState path_graph [Some [''U'', ''U'', ''U''], Some [''U'', ''U'']] =
          (Some (length_error path_graph),
           fst (snd (snapshots_loop (emptyState path_graph) pre None None))))"
proof -
  have d: "None \<notin> set [Some [''U'', ''U'', ''U''], Some [''U'', ''U'']]" by simp
  have b: "\<exists>s. Some s \<in> set [Some [''U'', ''U'', ''U''], Some [''U'', ''U'']] \<and>
             length s \<noteq> length (nodes path_graph)"
    by (rule exI[of _ "[''U'', ''U'']"]) (simp add: path_graph_def)
  show ?thesis using graph_setState_length_error[OF d b] d b by blast
qed

lemma single_node_short:
  "graph_setState single_node_graph [Some []] =
     (Some (Error ''State length is not equal to nodes.length 1''), emptyState single_node_graph)"
  using graph_setState_mismatch_at[of "[]" single_node_graph "[]" "[]"]
  by (simp add: length_error_def single_node_graph_def show_nat_1)

text \<open>
  C10, as stated, fails for a single snapshot of the wrong length: \<open>_setState\<close>
  throws the length error, an \<open>Error\<close> and not a \<open>TypeError\<close>, and the marking
  pass is not reached.
\<close>

theorem graph_setState_single_wrong_length:
  "length [Some ([] :: snapshot)] < 2 \<and>
   fst (graph_setState single_node_graph [Some []])
     = Some (Error ''State length is not equal to nodes.length 1'') \<and>
   fst (graph_setState single_node_graph [Some []]) \<noteq> Some TypeError"
  by (simp add: single_node_short)

text \<open>
  C10, amended. A call of \<open>setState\<close> with fewer than two snapshots never returns
  normally. With the empty history, or with one snapshot that fits the graph (or is
  undefined), the marking pass iterates over \<open>lastEnergizedBranches\<close>, which was
  never assigned, and a \<open>TypeError\<close> is thrown; with one snapshot of another length
  the length error is thrown instead. So a call that completes had at least two
  snapshots.
\<close>

theorem graph_setState_needs_two_snapshots:
  assumes "length hist < 2"
  shows "fst (graph_setState g hist) =
           (if \<exists>s. hist = [Some s] \<and> length s \<noteq> length (nodes g)
            then Some (length_error g) else Some TypeError) \<and>
         fst (graph_setState g hist) \<noteq> None"
proof -
  have len0: "length (nodes (emptyState g)) = length (nodes g)" by (simp add: emptyState_def)
  consider (empty) "hist = []" | (one) x where "hist = [x]"
    using assms by (cases hist) (auto simp: length_Suc_conv)
  then show ?thesis
  proof cases
    case empty
    then show ?thesis by (simp add: graph_setState_def)
  next
    case one
    show ?thesis
    proof (cases x)
      case None
      then show ?thesis using one by (simp add: graph_setState_def graph_setState_one_def)
    next
      case (Some s)
      then show ?thesis using one len0
        by (simp add: graph_setState_def graph_setState_one_def length_error_emptyState)
    qed
  qed
qed

theorem graph_setState_needs_two_snapshots_witness:
  "length ([] :: snapshot option list) < 2 \<and>
   fst (graph_setState path_graph []) = Some TypeError \<and>
   fst (graph_setState path_graph []) \<noteq> None"
  using graph_setState_needs_two_snapshots[of "[]" path_graph] by simp

section \<open>Properties of the interactive cursor\<close>

lemma show_history_frame:
  "snd (show_history c hist) = c\<lparr>graph := graph (snd (show_history c hist))\<rparr>"
  by (simp add: show_history_def split: prod.splits)

lemma setNext_frame:
  "snd (setNext c i) = c\<lparr>next_i := Some i, graph := graph (snd (setNext c i))\<rparr>"
  by (auto simp: setNext_def show_history_def Let_def split: option.splits sum.splits prod.splits)

lemma setNext_next: "next_i (snd (setNext c i)) = Some i"
  by (subst setNext_frame) simp

lemma setNext_ok:
  "fst (setNext c i) = None \<Longrightarrow> \<exists>act a. action c = Some act \<and> arr_at act i = Some a"
  by (auto simp: setNext_def Let_def split: option.splits sum.splits prod.splits)

lemma setAction_undefined:
  "actions c = None \<Longrightarrow> setAction c a n = (Some TypeError, c\<lparr>actionNum := a\<rparr>)"
  by (simp add: setAction_def)

lemma setAction_frame:
  assumes "actions c = Some acts"
  shows "snd (setAction c a n) =
           c\<lparr>actionNum := a, action := action_at acts a,
             ended := end_test (action_at acts a) (state c),
             next_i := next_i (snd (setAction c a n)), graph := graph (snd (setAction c a n))\<rparr>"
proof (cases "\<exists>i. n = Some i \<and> \<not> end_test (action_at acts a) (state c)")
  case True
  then obtain i where i: "n = Some i" "\<not> end_test (action_at acts a) (state c)" by blast
  let ?c3 = "c\<lparr>actionNum := a, action := action_at acts a,
                ended := end_test (action_at acts a) (state c)\<rparr>"
  have eq: "setAction c a n = setNext ?c3 i"
    using assms i by (simp add: setAction_def Let_def)
  show ?thesis unfolding eq by (subst setNext_frame) (simp add: setNext_next)
next
  case False
  let ?c3 = "c\<lparr>actionNum := a, action := action_at acts a,
                ended := end_test (action_at acts a) (state c)\<rparr>"
  show ?thesis
    using assms False
    by (cases n; cases "end_test (action_at acts a) (state c)")
       (auto simp: setAction_def Let_def show_history_def split: sum.splits prod.splits)
qed


lemma setState_unfold:
  "setState c s n = setAction (c\<lparr>state := s, actions := transitions_at c s\<rparr>) (policy_at c s) n"
  by (cases s) (simp_all add: setState_def Let_def transitions_at_def policy_at_def)


lemma setAction_ok: "fst (setAction c a n) = None \<Longrightarrow> actions c \<noteq> None"
  by (cases "actions c") (simp_all add: setAction_undefined)

lemma end_test_terminal:
  "transitions_at P s = Some acts \<Longrightarrow> end_test (action_at acts a) s = terminal_at P s a"
  by (simp add: end_test_def terminal_at_def ACTION_OFFSET_def split: option.splits)

lemma setState_ended:
  assumes "transitions_at c s = Some acts"
  shows "ended (snd (setState c s n)) = terminal_at c s (policy_at c s)"
proof -
  let ?c2 = "c\<lparr>state := s, actions := transitions_at c s\<rparr>"
  have a: "actions ?c2 = Some acts" using assms by simp
  show ?thesis
    unfolding setState_unfold
    by (subst setAction_frame[OF a]) (simp add: end_test_terminal[OF assms])
qed

lemma setAction_ended:
  assumes "actions c = transitions_at c (state c)" "actions c = Some acts"
  shows "ended (snd (setAction c a n)) = terminal_at c (state c) a"
  using assms by (subst setAction_frame[OF assms(2)]) (simp add: end_test_terminal)

lemma constructor_ended:
  assumes "policy_action P 0 = Some [(0, 1)]"
  shows "ended (snd (new_InteractivePolicy g P))"
proof -
  from assms obtain acts where t: "transitions P 0 = Some acts"
    and a: "action_at acts (policy P 0) = Some [(0, 1)]"
    by (auto simp: policy_action_def split: option.splits)
  have tr: "transitions_at (blank_cursor g P) (Some 0) = Some acts"
    using t by (simp add: transitions_at_def blank_cursor_def)
  have "terminal_at (blank_cursor g P) (Some 0) (policy_at (blank_cursor g P) (Some 0))"
    using tr a by (simp add: terminal_at_def policy_at_def blank_cursor_def)
  then show ?thesis
    unfolding new_InteractivePolicy_def using setState_ended[OF tr] by simp
qed

lemma setState_ok: "fst (setState c s n) = None \<Longrightarrow> transitions_at c s \<noteq> None"
  unfolding setState_unfold using setAction_ok[of "c\<lparr>state := s, actions := transitions_at c s\<rparr>"]
  by simp


lemmas cursor_eval =
  new_InteractivePolicy_def blank_cursor_def setState_def setAction_def setNext_def
  show_history_def history_snapshots_def transitions_at_def policy_at_def action_at_def
  end_test_def ACTION_OFFSET_def state_at_def arr_at_def Let_def
  nextState_def previousState_def setStateAndAction_def default_zero_def

lemmas graph_eval =
  graph_setState_def graph_setState_one_def emptyState_def diffs_of_def potentials_def
  node_branches_def mark_last_def node_status_of_def process_diffs.simps other_end_def

lemma self_loop_graph:
  "graph_setState single_node_graph [Some [''TG''], Some [''TG'']] =
     (None, \<lparr>nodes = [\<lparr>n_status = 1, n_pf = 1/10\<rparr>], branches = []\<rparr>)"
  by (simp add: graph_eval single_node_graph_def arr_at_def)

lemma self_loop_built:
  "fst (new_InteractivePolicy single_node_graph self_loop_policy) = None"
  by (simp add: cursor_eval self_loop_policy_def self_loop_graph)

lemma two_state_graph1:
  "graph_setState single_node_graph [Some [''U''], Some [''TG'']] =
     (None, \<lparr>nodes = [\<lparr>n_status = 2, n_pf = 1/10\<rparr>], branches = []\<rparr>)"
  by (simp add: graph_eval single_node_graph_def arr_at_def)

lemma setAction_policy_data:
  "states (snd (setAction c a n)) = states c \<and> transitions (snd (setAction c a n)) = transitions c \<and>
   policy (snd (setAction c a n)) = policy c \<and> previousStates (snd (setAction c a n)) = previousStates c \<and>
   state (snd (setAction c a n)) = state c \<and> actions (snd (setAction c a n)) = actions c \<and>
   actionNum (snd (setAction c a n)) = a"
proof (cases "actions c")
  case None
  then show ?thesis by (simp add: setAction_undefined)
next
  case (Some acts)
  show ?thesis by (subst (1 2 3 4 5 6 7) setAction_frame[OF Some]) simp
qed







lemma two_state_built: "fst (new_InteractivePolicy single_node_graph two_state_policy) = None"
  by (simp add: cursor_eval graph_eval single_node_graph_def two_state_policy_def)


lemma two_state_cursor_fields:
  "state two_state_cursor = Some 0 \<and> actionNum two_state_cursor = Some 0 \<and>
   next_i two_state_cursor = Some 0 \<and> previousStates two_state_cursor = [] \<and>
   \<not> ended two_state_cursor"
  by (simp add: two_state_cursor_def cursor_eval graph_eval single_node_graph_def two_state_policy_def)



lemma two_state_cursor_actions:
  "actions two_state_cursor = transitions_at two_state_cursor (state two_state_cursor) \<and>
   actions two_state_cursor \<noteq> None"
  by (simp add: two_state_cursor_def cursor_eval graph_eval single_node_graph_def two_state_policy_def)


lemmas stale_eval =
  stale_cursor_def updated_cursor_def branching_cursor_def update_def cursor_eval graph_eval
  single_node_graph_def branching_policy_def rerouted_policy_def

lemma stale_built:
  "fst (new_InteractivePolicy single_node_graph branching_policy) = None \<and>
   fst (update branching_cursor rerouted_policy (Some 0)) = None \<and>
   fst (setNext updated_cursor 1) = None"
  by (simp add: stale_eval)




lemma open_eval:
  "fst (new_InteractivePolicy single_node_graph open_policy) = None \<and> \<not> ended open_cursor \<and>
   fst (setState open_cursor (Some 1) (Some 0)) = Some TypeError \<and>
   \<not> ended (snd (setState open_cursor (Some 1) (Some 0))) \<and>
   terminal_at open_cursor (Some 1) (policy_at open_cursor (Some 1))"
  by (simp add: open_cursor_def terminal_at_def cursor_eval graph_eval single_node_graph_def open_policy_def)

lemma updated_eval:
  "\<not> ended updated_cursor \<and> state updated_cursor = Some 0 \<and> actionNum updated_cursor = Some 0 \<and>
   terminal_at updated_cursor (Some 0) (Some 0)"
  by (simp add: terminal_at_def stale_eval)




text \<open>
  C4. With an empty \<open>previousStates\<close>, \<open>previousState()\<close> throws
  \<open>Error("There's no previous state")\<close> and leaves every field of the cursor as it
  was: \<open>pop\<close> on an empty array removes nothing.
\<close>

theorem previousState_empty_history:
  assumes "previousStates c = []"
  shows "previousState c = (Some no_previous_state, c)"
  using assms by (simp add: previousState_def)


theorem previousState_empty_history_witness:
  "previousStates two_state_cursor = [] \<and>
   previousState two_state_cursor = (Some no_previous_state, two_state_cursor)"
  using previousState_empty_history[of two_state_cursor] two_state_cursor_fields by simp


text \<open>
  C5, as stated, fails in two ways. When \<open>transitions\<close> has no entry for the state,
  \<open>setAction\<close> throws a \<open>TypeError\<close> at \<open>this.actions[actionNum]\<close>, before the
  flag is assigned: on the open policy \<open>setState(1)\<close> leaves \<open>end\<close> false although
  no action is recorded for state 1. And \<open>update()\<close> calls \<open>setAction\<close> on the
  action table of the replaced policy: on the updated cursor \<open>end\<close> is false
  although the sole outcome of the new action returns to state 0.
\<close>

theorem ended_flag_not_set:
  "fst (new_InteractivePolicy single_node_graph open_policy) = None \<and>
   fst (setState open_cursor (Some 1) (Some 0)) = Some TypeError \<and>
   \<not> ended (snd (setState open_cursor (Some 1) (Some 0))) \<and>
   terminal_at open_cursor (Some 1) (policy_at open_cursor (Some 1)) \<and>
   fst (update branching_cursor rerouted_policy (Some 0)) = None \<and>
   state updated_cursor = Some 0 \<and> actionNum updated_cursor = Some 0 \<and>
   \<not> ended updated_cursor \<and> terminal_at updated_cursor (Some 0) (Some 0)"
  by (simp add: open_eval updated_eval stale_built)

text \<open>
  C5, amended. After \<open>setState\<close> on a state that has an entry in \<open>transitions\<close>
  (which every call that returns normally has) and after \<open>setAction\<close> on a cursor
  whose cached action table is the entry of its current state, the flag \<open>end\<close> holds
  exactly when the looked-up action is absent from that table or has a single outcome
  whose target is the current state. A cursor constructed on a policy whose
  recommended action at state 0 is the single outcome \<open>[0, 1.0]\<close> has \<open>end\<close> set,
  and \<open>nextStateAvailable()\<close> is false.
\<close>

theorem ended_flag_after_set:
  "((fst (setState c s n) = None \<or> transitions_at c s \<noteq> None) \<longrightarrow>
      ended (snd (setState c s n)) = terminal_at c s (policy_at c s)) \<and>
   (actions c' = transitions_at c' (state c') \<longrightarrow>
      (fst (setAction c' a m) = None \<or> actions c' \<noteq> None) \<longrightarrow>
      ended (snd (setAction c' a m)) = terminal_at c' (state c') a) \<and>
   (policy_action P 0 = Some [(0, 1)] \<longrightarrow>
      ended (snd (new_InteractivePolicy g P)) \<and>
      \<not> nextStateAvailable (snd (new_InteractivePolicy g P)))"
proof (intro conjI impI)
  assume "fst (setState c s n) = None \<or> transitions_at c s \<noteq> None"
  then have "transitions_at c s \<noteq> None" using setState_ok by blast
  then obtain acts where "transitions_at c s = Some acts" by blast
  then show "ended (snd (setState c s n)) = terminal_at c s (policy_at c s)"
    by (rule setState_ended)
next
  assume i: "actions c' = transitions_at c' (state c')"
    and "fst (setAction c' a m) = None \<or> actions c' \<noteq> None"
  then have "actions c' \<noteq> None" using setAction_ok by blast
  then obtain acts where "actions c' = Some acts" by blast
  with i show "ended (snd (setAction c' a m)) = terminal_at c' (state c') a"
    by (rule setAction_ended)
next
  assume "policy_action P 0 = Some [(0, 1)]"
  then show "ended (snd (new_InteractivePolicy g P))" by (rule constructor_ended)
next
  assume "policy_action P 0 = Some [(0, 1)]"
  then show "\<not> nextStateAvailable (snd (new_InteractivePolicy g P))"
    using constructor_ended by (simp add: nextStateAvailable_def)
qed


theorem ended_flag_after_set_witness:
  "transitions_at (blank_cursor single_node_graph self_loop_policy) (Some 0) \<noteq> None \<and>
   ended (snd (setState (blank_cursor single_node_graph self_loop_policy) (Some 0) (Some 0)))
     = terminal_at (blank_cursor single_node_graph self_loop_policy) (Some 0)
         (policy_at (blank_cursor single_node_graph self_loop_policy) (Some 0)) \<and>
   actions two_state_cursor = transitions_at two_state_cursor (state two_state_cursor) \<and>
   actions two_state_cursor \<noteq> None \<and>
   ended (snd (setAction two_state_cursor (Some 0) (Some 0)))
     = terminal_at two_state_cursor (state two_state_cursor) (Some 0) \<and>
   policy_action self_loop_policy 0 = Some [(0, 1)] \<and>
   fst (new_InteractivePolicy single_node_graph self_loop_policy) = None \<and>
   ended (snd (new_InteractivePolicy single_node_graph self_loop_policy)) \<and>
   \<not> nextStateAvailable (snd (new_InteractivePolicy single_node_graph self_loop_policy))"
proof -
  have t: "transitions_at (blank_cursor single_node_graph self_loop_policy) (Some 0) \<noteq> None"
    by (simp add: transitions_at_def blank_cursor_def self_loop_policy_def)
  have p: "policy_action self_loop_policy 0 = Some [(0, 1)]"
    by (simp add: policy_action_def action_at_def self_loop_policy_def)
  show ?thesis
    using ended_flag_after_set[of "blank_cursor single_node_graph self_loop_policy" "Some 0" "Some 0"
        two_state_cursor "Some 0" "Some 0" self_loop_policy single_node_graph]
      t p two_state_cursor_actions self_loop_built
    by blast
qed


section \<open>Properties of the linear cursor\<close>

lemma steps_loop_post:
  assumes run: "steps_loop P cur stps fh = Some r"
  shows "steps_inv P cur stps fh \<longrightarrow>
         (\<forall>cur' stps' fh'. r = (None, cur', stps', fh') \<longrightarrow> steps_post P cur' stps' fh')"
proof -
  define Q :: "(('a policy_data_scheme \<times> int) \<times> int list) \<times> hentry option list
                 \<Rightarrow> error option \<times> int \<times> int list \<times> hentry option list \<Rightarrow> bool"
    where "Q = (\<lambda>x r. steps_inv (fst (fst (fst x))) (snd (fst (fst x))) (snd (fst x)) (snd x) \<longrightarrow>
              (\<forall>cur' stps' fh'. r = (None, cur', stps', fh') \<longrightarrow>
                 steps_post (fst (fst (fst x))) cur' stps' fh'))"
  have "Q (((P, cur), stps), fh) r"
  proof (rule steps_loop.raw_induct[where Pa = Q, OF _ run])
    fix loop :: "'a policy_data_scheme \<Rightarrow> int \<Rightarrow> int list \<Rightarrow> hentry option list
                   \<Rightarrow> (error option \<times> int \<times> int list \<times> hentry option list) option"
    fix P cur stps fh r
    assume IH: "\<And>P cur stps fh r. loop P cur stps fh = Some r \<Longrightarrow> Q (((P, cur), stps), fh) r"
    assume body: "(if cur < int (length (states P)) then
        (case transitions P cur of
           None \<Rightarrow> Some (Some TypeError, cur, stps, fh)
         | Some acts \<Rightarrow>
             (case action_at acts (policy P cur) of
                None \<Rightarrow> Some (Some TypeError, cur, stps, fh)
              | Some [] \<Rightarrow> Some (Some TypeError, cur, stps, fh)
              | Some (a # _) \<Rightarrow>
                  (let nxt = fst a + ACTION_OFFSET
                   in if nxt = cur then Some (None, cur, stps, fh)
                      else (let fh1 = fh @ [Some \<lparr>h_state = Some cur,
                                                   h_actionNum = policy P cur,
                                                   h_next = Some 0\<rparr>]
                            in case state_at P (Some nxt) of
                                 None \<Rightarrow> Some (None, cur, stps, fh1)
                               | Some _ \<Rightarrow> loop P nxt (stps @ [nxt]) fh1))))
      else Some (None, cur, stps, fh)) = Some r"
    show "Q (((P, cur), stps), fh) r"
      unfolding Q_def fst_conv snd_conv
    proof (intro allI impI)
      fix cur' stps' fh'
      assume inv: "steps_inv P cur stps fh" and r: "r = (None, cur', stps', fh')"
      from inv have ne: "stps \<noteq> []" and la: "last stps = cur"
        and fh: "fh = map (entry_for P) (butlast stps)"
        unfolding steps_inv_def by blast+
      have keep: "steps_post P cur stps fh" unfolding steps_post_def using ne la fh by blast
      let ?fh1 = "fh @ [entry_for P cur]"
      have fh1: "?fh1 = map (entry_for P) stps"
        using ne la fh by (metis append_butlast_last_id list.simps(8,9) map_append)
      have more: "steps_post P cur stps ?fh1" unfolding steps_post_def using ne la fh1 by blast
      have inv': "\<And>nxt. steps_inv P nxt (stps @ [nxt]) ?fh1"
        unfolding steps_inv_def using fh1 by simp
      have step: "\<And>nxt. loop P nxt (stps @ [nxt]) ?fh1 = Some r \<Longrightarrow> steps_post P cur' stps' fh'"
      proof -
        fix nxt assume "loop P nxt (stps @ [nxt]) ?fh1 = Some r"
        from IH[OF this] inv'[of nxt] r show "steps_post P cur' stps' fh'"
          unfolding Q_def by simp
      qed
      show "steps_post P cur' stps' fh'"
        using body r keep more step
        by (auto simp: Let_def entry_for_def split: if_splits option.splits list.splits)
    qed
  qed
  then show ?thesis unfolding Q_def by simp
qed

lemma setAction_linear_fields:
  fixes c :: linear
  shows "steps (snd (setAction c a n)) = steps c \<and> fullHistory (snd (setAction c a n)) = fullHistory c \<and>
         index (snd (setAction c a n)) = index c"
proof (cases "actions c")
  case None
  then show ?thesis by (simp add: setAction_undefined)
next
  case (Some acts)
  show ?thesis by (subst (1 2 3) setAction_frame[OF Some]) simp
qed

lemma goTo_fields:
  "state (snd (goTo c i)) = (if i = 0 then arr_at (steps c) 0 else arr_at (steps c) (int i - 1)) \<and>
   previousStates (snd (goTo c i)) = (if i = 0 then [] else take (i - 1) (fullHistory c)) \<and>
   index (snd (goTo c i)) = i \<and> steps (snd (goTo c i)) = steps c \<and>
   fullHistory (snd (goTo c i)) = fullHistory c"
  by (simp add: goTo_def Let_def setState_unfold setAction_policy_data setAction_linear_fields)

lemma getSteps_shape:
  assumes "getStepsFromPolicy c0 = Some (None, c)"
  shows "\<exists>cur stps fh. steps_post c0 cur stps fh \<and> steps c = stps @ [cur] \<and>
           fullHistory c = fh @ [if fh = [] then None else last fh] \<and> policy c = policy c0"
proof -
  from assms obtain cur stps fh where
    run: "steps_loop c0 0 [0] [] = Some (None, cur, stps, fh)"
    and c: "c = c0\<lparr>steps := stps @ [cur], fullHistory := fh @ [if fh = [] then None else last fh]\<rparr>"
    by (auto simp: getStepsFromPolicy_def split: option.splits prod.splits)
  have "steps_inv c0 0 [0] []" by (simp add: steps_inv_def)
  with steps_loop_post[OF run] have "steps_post c0 cur stps fh" by blast
  then show ?thesis using c by auto
qed

lemma entry_for_cong: "policy P = policy Q \<Longrightarrow> entry_for P = entry_for Q"
  by (rule ext) (simp add: entry_for_def)

lemma getSteps_history:
  assumes g: "getStepsFromPolicy c0 = Some (None, c)" and i: "i < length (steps c)"
  shows "take (i - 1) (fullHistory c) = map (entry_for c) (take (i - 1) (steps c))"
proof -
  from getSteps_shape[OF g] obtain cur stps fh where
    post: "steps_post c0 cur stps fh" and st: "steps c = stps @ [cur]"
    and fh: "fullHistory c = fh @ [if fh = [] then None else last fh]"
    and pol: "policy c = policy c0" by blast
  have e: "entry_for c = entry_for c0" by (rule entry_for_cong[OF pol])
  from post have ne: "stps \<noteq> []"
    and alt: "fh = map (entry_for c0) (butlast stps) \<or> fh = map (entry_for c0) stps"
    unfolding steps_post_def by blast+
  have le: "i - 1 \<le> length stps - 1" using i st by simp
  have le_fh: "i - 1 \<le> length fh" using alt le by auto
  have a: "take (i - 1) (fullHistory c) = take (i - 1) fh" using fh le_fh by simp
  have b: "take (i - 1) (steps c) = take (i - 1) (butlast stps)"
    using st le ne by (simp add: butlast_conv_take min_def)
  from alt have "take (i - 1) fh = map (entry_for c0) (take (i - 1) (butlast stps))"
  proof
    assume "fh = map (entry_for c0) (butlast stps)"
    then show ?thesis by (simp add: take_map)
  next
    assume "fh = map (entry_for c0) stps"
    then have "take (i - 1) fh = map (entry_for c0) (take (i - 1) stps)" by (simp add: take_map)
    moreover have "take (i - 1) stps = take (i - 1) (butlast stps)"
      using le by (simp add: butlast_conv_take min_def)
    ultimately show ?thesis by simp
  qed
  then show ?thesis using a b e by simp
qed


lemma two_state_linear0_data:
  "states two_state_linear0 = [[''U''], [''TG'']] \<and>
   transitions two_state_linear0 = transitions two_state_policy \<and>
   policy two_state_linear0 = policy two_state_policy"
  unfolding two_state_linear0_def two_state_cursor_def new_InteractivePolicy_def
  by (simp add: cursor.defs setState_unfold setAction_policy_data blank_cursor_def two_state_policy_def)

lemma two_state_steps_loop:
  "steps_loop two_state_linear0 0 [0] [] =
     Some (None, 1, [0, 1], [entry_for two_state_policy 0])"
  by (simp add: steps_loop.simps two_state_linear0_data state_at_def arr_at_def action_at_def
      ACTION_OFFSET_def entry_for_def two_state_policy_def)

lemma two_state_getSteps: "getStepsFromPolicy two_state_linear0 = Some (None, two_state_linear)"
  by (simp add: getStepsFromPolicy_def two_state_steps_loop two_state_linear_def)

lemma two_state_linear_steps:
  "steps two_state_linear = [0, 1, 1] \<and>
   fullHistory two_state_linear = [entry_for two_state_policy 0, entry_for two_state_policy 0]"
  by (simp add: two_state_linear_def)


text \<open>
  C7, as stated, fails: for \<open>index \<ge> 1\<close>, \<open>goTo(index)\<close> sets the current state
  to \<open>steps[index-1]\<close>, not to \<open>steps[index]\<close>, and keeps \<open>index - 1\<close>
  history entries. On the two-state policy \<open>goTo(1)\<close> leaves the cursor at state 0
  with no previous state, while \<open>steps[1]\<close> is state 1.
\<close>

theorem goTo_not_step_itself:
  "(1::nat) < length (steps two_state_linear) \<and>
   steps two_state_linear ! 1 = 1 \<and>
   state (snd (goTo two_state_linear 1)) = Some 0 \<and>
   previousStates (snd (goTo two_state_linear 1)) = []"
  by (simp add: goTo_fields two_state_linear_steps arr_at_def)


text \<open>
  C7, amended. For every valid index \<open>i\<close> into the steps that
  \<open>getStepsFromPolicy\<close> computed, \<open>goTo(i)\<close> sets \<open>index\<close> to \<open>i\<close>, the
  current state to \<open>steps[i-1]\<close> (to \<open>steps[0]\<close> when \<open>i = 0\<close>) and the
  previous states to the entries recorded for \<open>steps[0..i-2]\<close>, in order (none
  when \<open>i \<le> 1\<close>); the state \<open>steps[i]\<close> is the outcome previewed from there.
  The subtraction below is that of the natural numbers, so \<open>0 - 1 = 0\<close>.
\<close>

theorem goTo_previous_step:
  assumes g: "getStepsFromPolicy c0 = Some (None, c)" and i: "i < length (steps c)"
  shows "state (snd (goTo c i)) = Some (steps c ! (i - 1)) \<and>
         previousStates (snd (goTo c i)) = map (entry_for c) (take (i - 1) (steps c)) \<and>
         index (snd (goTo c i)) = i"
proof -
  have s: "state (snd (goTo c i)) = Some (steps c ! (i - 1))"
  proof (cases "i = 0")
    case True
    then show ?thesis using i by (simp add: goTo_fields arr_at_def)
  next
    case False
    then have "nat (int i - 1) = i - 1" by simp
    then show ?thesis using i False by (simp add: goTo_fields arr_at_def)
  qed
  have p: "previousStates (snd (goTo c i)) = map (entry_for c) (take (i - 1) (steps c))"
    using getSteps_history[OF g i] by (simp add: goTo_fields)
  show ?thesis using s p by (simp add: goTo_fields)
qed

theorem goTo_previous_step_witness:
  "getStepsFromPolicy two_state_linear0 = Some (None, two_state_linear) \<and>
   (2::nat) < length (steps two_state_linear) \<and>
   state (snd (goTo two_state_linear 2)) = Some (steps two_state_linear ! (2 - 1)) \<and>
   previousStates (snd (goTo two_state_linear 2))
     = map (entry_for two_state_linear) (take (2 - 1) (steps two_state_linear)) \<and>
   index (snd (goTo two_state_linear 2)) = 2"
proof -
  have l: "(2::nat) < length (steps two_state_linear)" by (simp add: two_state_linear_steps)
  show ?thesis using goTo_previous_step[OF two_state_getSteps l] two_state_getSteps l by blast
qed


lemma successProbability_loop_prod:
  "length rest \<le> length ns \<Longrightarrow> nodes g = pre @ ns \<Longrightarrow>
   successProbability_loop g rest (int (length pre)) p =
     Inr (p * (\<Prod>x\<leftarrow>filter (\<lambda>x. fst x \<noteq> ''D'' \<and> fst x \<noteq> ''U'' \<and> n_status (snd x) = 0)
                         (zip rest ns). 1 - n_pf (snd x)))"
proof (induction rest arbitrary: ns pre p)
  case Nil
  then show ?case by simp
next
  case (Cons c rest)
  then obtain n ns' where ns: "ns = n # ns'" by (cases ns) auto
  have at: "arr_at (nodes g) (int (length pre)) = Some n"
    using Cons.prems(2) ns by (simp add: arr_at_def)
  have nd: "nodes g = (pre @ [n]) @ ns'" using Cons.prems(2) ns by simp
  have le: "length rest \<le> length ns'" using Cons.prems(1) ns by simp
  have i: "int (length pre) + 1 = int (length (pre @ [n]))" by simp
  note IH = Cons.IH[OF le nd]
  show ?case
    unfolding successProbability_loop.simps at i IH ns by (simp add: mult.assoc)
qed


lemma two_state_linear_graph:
  "graph two_state_linear = \<lparr>nodes = [\<lparr>n_status = 2, n_pf = 1/10\<rparr>], branches = []\<rparr>"
  by (simp add: two_state_linear_def two_state_linear0_def cursor.defs two_state_cursor_def
      cursor_eval graph_eval single_node_graph_def two_state_policy_def)

lemma two_state_linear_data:
  "states two_state_linear = [[''U''], [''TG'']]"
  by (simp add: two_state_linear_def two_state_linear0_data)


text \<open>
  C8, as stated, fails: \<open>successProbability\<close> takes no factor for a node whose
  status symbol is \<open>"U"\<close>. At step 0 of the two-state policy the only node is
  unknown with failure probability 1/10; the source returns 1, the product over the
  unknown nodes is 9/10.
\<close>

theorem successProbability_skips_unknown:
  "state_at two_state_linear (arr_at (steps two_state_linear) 0) = Some [''U''] \<and>
   successProbability two_state_linear 0 = Inr 1 \<and>
   unknown_product (graph two_state_linear) [''U''] = 9/10"
  by (simp add: successProbability_def unknown_product_def state_at_def arr_at_def
      two_state_linear_steps two_state_linear_data two_state_linear_graph)


text \<open>
  C8, amended. For a step whose snapshot is defined and no longer than the graph's node
  list, \<open>successProbability(i)\<close> is the product of \<open>1 - pf\<close> over the nodes whose
  status symbol in that snapshot is energized (neither \<open>"D"\<close> nor \<open>"U"\<close>) and
  whose status on the graph is 0 at the time of the call; other nodes contribute no
  factor.
\<close>

theorem successProbability_pending_nodes:
  assumes "state_at c (arr_at (steps c) i) = Some step"
    and "length step \<le> length (nodes (graph c))"
  shows "successProbability c i = Inr (pending_product (graph c) step)"
  using successProbability_loop_prod[OF assms(2), of "graph c" "[]" 1] assms(1)
  by (simp add: successProbability_def pending_product_def)

theorem successProbability_pending_nodes_witness:
  "state_at (two_state_linear\<lparr>graph := single_node_graph\<rparr>)
     (arr_at (steps (two_state_linear\<lparr>graph := single_node_graph\<rparr>)) 1) = Some [''TG''] \<and>
   length [''TG''] \<le> length (nodes (graph (two_state_linear\<lparr>graph := single_node_graph\<rparr>))) \<and>
   successProbability (two_state_linear\<lparr>graph := single_node_graph\<rparr>) 1 = Inr (9/10) \<and>
   pending_product single_node_graph [''TG''] = 9/10"
proof -
  let ?c = "two_state_linear\<lparr>graph := single_node_graph\<rparr>"
  have a: "state_at ?c (arr_at (steps ?c) 1) = Some [''TG'']"
    by (simp add: state_at_def arr_at_def two_state_linear_steps two_state_linear_data)
  have b: "length [''TG''] \<le> length (nodes (graph ?c))" by (simp add: single_node_graph_def)
  have p: "pending_product single_node_graph [''TG''] = 9/10"
    by (simp add: pending_product_def single_node_graph_def)
  show ?thesis using successProbability_pending_nodes[OF a b] a b p by simp
qed


end
